theory Spec2Isabelle
  imports Main "HOL-Library.AList" "HOL-Library.Char_ord" "HOL-Library.List_Lexorder"
begin

section \<open>The pipeline status record (web\_app.py, lines 20--32)\<close>

text \<open>
  The five keys of \<open>pipeline_status['phases']\<close>, in the order the dictionary literal
  lists them, and the four strings the code ever stores under \<open>'status'\<close>.
\<close>

datatype phase = Upload | Conversion | Cleaning | Training | Inference

datatype status = Pending | Running | Completed | Error

datatype level = Info | Warning | ErrorLevel

fun phase_name :: "phase \<Rightarrow> string" where
  "phase_name Upload = ''upload''"
| "phase_name Conversion = ''conversion''"
| "phase_name Cleaning = ''cleaning''"
| "phase_name Training = ''training''"
| "phase_name Inference = ''inference''"

fun status_name :: "status \<Rightarrow> string" where
  "status_name Pending = ''pending''"
| "status_name Running = ''running''"
| "status_name Completed = ''completed''"
| "status_name Error = ''error''"

definition all_phases :: "phase list" where
  "all_phases = [Upload, Conversion, Cleaning, Training, Inference]"

fun phase_index :: "phase \<Rightarrow> nat" where
  "phase_index Upload = 0"
| "phase_index Conversion = 1"
| "phase_index Cleaning = 2"
| "phase_index Training = 3"
| "phase_index Inference = 4"

record phase_state =
  status :: status
  timestamp :: "string option"
  message :: string

record log_entry =
  log_timestamp :: string
  log_message :: string
  log_level :: level

record PipelineStatus =
  current_phase :: string
  phases :: "phase \<Rightarrow> phase_state"
  model_ready :: bool
  logs :: "log_entry list"

definition pending_state :: phase_state where
  "pending_state = \<lparr>status = Pending, timestamp = None, message = ''''\<rparr>"

definition initial_status :: PipelineStatus where
  "initial_status =
     \<lparr>current_phase = ''idle'', phases = (\<lambda>_. pending_state), model_ready = False, logs = []\<rparr>"

section \<open>The world outside the status record\<close>

subsection \<open>Exceptions, process results, JSON\<close>

text \<open>
  A Python exception is its class, as far as the \<open>except\<close> clauses of the program
  tell classes apart, and the text \<open>str(e)\<close> that the handlers copy into messages.
\<close>

datatype exn_class = TimeoutExpired | RequestException | OSError | OtherException

datatype exn = Exn exn_class string

fun str :: "exn \<Rightarrow> string" where
  "str (Exn c m) = m"

fun exn_class_of :: "exn \<Rightarrow> exn_class" where
  "exn_class_of (Exn c m) = c"

record completed_process =
  returncode :: int
  stdout :: string
  stderr :: string

text \<open>
  A JSON value as Python holds it: an \<open>int\<close>, a \<open>float\<close> (kept as the text that \<open>repr\<close>
  writes for it), a string, a list, or a \<open>dict\<close> with its keys in insertion order, each
  key once.
\<close>

datatype json =
  JNull | JBool bool | JNumber int | JFloat string | JString string | JArray "json list"
  | JObject "(string \<times> json) list"

text \<open>\<open>jsonify(value)\<close> writes the value as a JSON document with the keys of every object
  sorted. The document is given by its structure, the keys in the order written.\<close>

primrec jsonify :: "json \<Rightarrow> json" where
  "jsonify JNull = JNull"
| "jsonify (JBool b) = JBool b"
| "jsonify (JNumber n) = JNumber n"
| "jsonify (JFloat r) = JFloat r"
| "jsonify (JString s) = JString s"
| "jsonify (JArray vs) = JArray (map jsonify vs)"
| "jsonify (JObject kvs) = JObject (sort_key fst (map (map_prod id jsonify) kvs))"

text \<open>What a block of statements does to the control flow: it falls through with a
  value, executes \<open>return\<close>, or raises.\<close>

datatype 'a outcome = Next 'a | Return | Raise exn

subsection \<open>The file system\<close>

text \<open>
  A tree of directories and regular files. A path is the list of its components from
  the root: \<open>/app/data/raw\<close> is \<open>[''app'', ''data'', ''raw'']\<close>. A directory is an
  association list from names to nodes; the first binding of a name is the entry.
  The operations raise in the cases the tree decides (a missing file, a directory where
  a file is needed, and the reverse). Permissions and input/output faults are not
  part of the model.
\<close>

datatype node = File string | Dir "(string \<times> node) list"

type_synonym path = "string list"

fun lookup :: "node \<Rightarrow> path \<Rightarrow> node option" where
  "lookup n [] = Some n"
| "lookup (File c) (x # xs) = None"
| "lookup (Dir es) (x # xs) = (case map_of es x of None \<Rightarrow> None | Some n \<Rightarrow> lookup n xs)"

text \<open>\<open>replace n p v\<close> puts \<open>v\<close> at path \<open>p\<close> (\<open>None\<close> deletes the entry); it changes
  nothing when the parent of \<open>p\<close> is not an existing directory.\<close>

fun replace :: "node \<Rightarrow> path \<Rightarrow> node option \<Rightarrow> node" where
  "replace (Dir es) [x] None = Dir (AList.delete x es)"
| "replace (Dir es) [x] (Some n) = Dir (AList.update x n es)"
| "replace (Dir es) (x # y # ys) v =
     (case map_of es x of
        None \<Rightarrow> Dir es
      | Some sub \<Rightarrow> Dir (AList.update x (replace sub (y # ys) v) es))"
| "replace n p v = n"

text \<open>\<open>os.path.join\<close> on names without a slash; an empty name adds no component.\<close>

definition os_path_join :: "path \<Rightarrow> string list \<Rightarrow> path" where
  "os_path_join p names = p @ filter (\<lambda>name. name \<noteq> []) names"

definition os_path_exists :: "node \<Rightarrow> path \<Rightarrow> bool" where
  "os_path_exists root p = (lookup root p \<noteq> None)"


definition is_dir :: "node \<Rightarrow> path \<Rightarrow> bool" where
  "is_dir root p = (case lookup root p of Some (Dir es) \<Rightarrow> True | _ \<Rightarrow> False)"

definition proper_prefix :: "path \<Rightarrow> path \<Rightarrow> bool" where
  "proper_prefix p q = (length p < length q \<and> take (length p) q = p)"

subsection \<open>The state the program runs in\<close>

text \<open>
  What leaves the process is recorded in order: the two kinds of socket messages, and
  every \<open>subprocess.run\<close> with its command line, its timeout, what it gave back and
  the file system it left behind.
\<close>

datatype event =
    Emit_status_update PipelineStatus
  | Emit_new_log log_entry
  | Subprocess_run "string list" "nat option" "exn + completed_process" node

record world =
  pipeline_status :: PipelineStatus
  fs :: node
  events :: "event list"

text \<open>
  The collaborators the program calls but does not contain: the container runtime behind
  \<open>subprocess.run\<close> (it answers with a result or an exception and may rewrite the file
  system), the inference worker behind \<open>requests\<close>, the clock, the environment variable
  \<open>HOST_DATA_PATH\<close> and werkzeug's \<open>secure_filename\<close>. Each may depend on everything
  that happened before, which the world records.
\<close>

record env =
  HOST_DATA_PATH :: "string option"
  subprocess :: "string list \<Rightarrow> nat option \<Rightarrow> world \<Rightarrow> (exn + completed_process) \<times> node"
  requests_get :: "string \<Rightarrow> nat \<Rightarrow> world \<Rightarrow> exn option"
  requests_post :: "string \<Rightarrow> json \<Rightarrow> nat \<Rightarrow> world \<Rightarrow> exn + (exn + json)"
  strftime_now :: "world \<Rightarrow> string"
  secure_filename :: "string \<Rightarrow> string"

subsection \<open>Sequencing, \<open>try\<close> and \<open>except\<close>\<close>

definition and_then ::
  "'a outcome \<times> world \<Rightarrow> ('a \<Rightarrow> world \<Rightarrow> 'b outcome \<times> world) \<Rightarrow> 'b outcome \<times> world" where
  "and_then r f =
     (case r of
        (Next a, w) \<Rightarrow> f a w
      | (Return, w) \<Rightarrow> (Return, w)
      | (Raise e, w) \<Rightarrow> (Raise e, w))"

definition catch ::
  "'a outcome \<times> world \<Rightarrow> (exn \<Rightarrow> world \<Rightarrow> 'a outcome \<times> world) \<Rightarrow> 'a outcome \<times> world" where
  "catch r handler = (case r of (Raise e, w) \<Rightarrow> handler e w | _ \<Rightarrow> r)"

subsection \<open>File system calls of the \<open>os\<close> module\<close>

text \<open>
  The exception of a failed call is an \<open>OSError\<close> whose \<open>str(e)\<close> is the error number and
  its text followed by the path, as in \<open>[Errno 17] File exists: '/app/data/processed'\<close>,
  or by both paths of a call that takes two. A path is written as \<open>repr\<close> writes a name
  that has no quote, backslash or control character in it.
\<close>

datatype errno = ENOENT | EBUSY | EEXIST | ENOTDIR | EISDIR | EINVAL | ENOTEMPTY

fun errno_text :: "errno \<Rightarrow> string" where
  "errno_text ENOENT = ''[Errno 2] No such file or directory''"
| "errno_text EBUSY = ''[Errno 16] Device or resource busy''"
| "errno_text EEXIST = ''[Errno 17] File exists''"
| "errno_text ENOTDIR = ''[Errno 20] Not a directory''"
| "errno_text EISDIR = ''[Errno 21] Is a directory''"
| "errno_text EINVAL = ''[Errno 22] Invalid argument''"
| "errno_text ENOTEMPTY = ''[Errno 39] Directory not empty''"

definition repr_path :: "path \<Rightarrow> string" where
  "repr_path p =
     [CHR 0x27] @ (if p = [] then ''/'' else concat (map (\<lambda>name. ''/'' @ name) p)) @ [CHR 0x27]"

definition os_error :: "errno \<Rightarrow> path \<Rightarrow> exn" where
  "os_error n p = Exn OSError (errno_text n @ '': '' @ repr_path p)"

definition os_error2 :: "errno \<Rightarrow> path \<Rightarrow> path \<Rightarrow> exn" where
  "os_error2 n p q = Exn OSError (errno_text n @ '': '' @ repr_path p @ '' -> '' @ repr_path q)"

text \<open>Why a path leads nowhere: a name on the way is missing, or a regular file stands
  where a directory is needed.\<close>

fun missing :: "node \<Rightarrow> path \<Rightarrow> errno" where
  "missing (Dir es) (x # xs) = (case map_of es x of None \<Rightarrow> ENOENT | Some n \<Rightarrow> missing n xs)"
| "missing (File c) (x # xs) = ENOTDIR"
| "missing n [] = ENOENT"

definition os_remove :: "path \<Rightarrow> world \<Rightarrow> unit outcome \<times> world" where
  "os_remove p w =
     (case lookup (fs w) p of
        None \<Rightarrow> (Raise (os_error (missing (fs w) p) p), w)
      | Some (Dir es) \<Rightarrow> (Raise (os_error EISDIR p), w)
      | Some (File c) \<Rightarrow> (Next (), w\<lparr>fs := replace (fs w) p None\<rparr>))"


definition os_rename :: "path \<Rightarrow> path \<Rightarrow> world \<Rightarrow> unit outcome \<times> world" where
  "os_rename src dst w =
     (case lookup (fs w) src of
        None \<Rightarrow> (Raise (os_error2 (missing (fs w) src) src dst), w)
      | Some n \<Rightarrow>
          if src = [] \<or> dst = [] then (Raise (os_error2 EBUSY src dst), w)
          else if \<not> is_dir (fs w) (butlast dst)
          then (Raise (os_error2 (missing (fs w) dst) src dst), w)
          else if proper_prefix src dst then (Raise (os_error2 EINVAL src dst), w)
          else if src = dst then (Next (), w)
          else (case (n, lookup (fs w) dst) of
                  (File c, Some (Dir es)) \<Rightarrow> (Raise (os_error2 EISDIR src dst), w)
                | (Dir es, Some (File c)) \<Rightarrow> (Raise (os_error2 ENOTDIR src dst), w)
                | (Dir es, Some (Dir es')) \<Rightarrow>
                    if es' = []
                    then (Next (), w\<lparr>fs := replace (replace (fs w) src None) dst (Some n)\<rparr>)
                    else (Raise (os_error2 ENOTEMPTY src dst), w)
                | _ \<Rightarrow> (Next (), w\<lparr>fs := replace (replace (fs w) src None) dst (Some n)\<rparr>)))"

text \<open>
  \<open>os.makedirs(p, exist_ok=True)\<close>: creates every missing directory on the way; raises
  when a name on the way is a regular file, with the path at which \<open>mkdir\<close> failed. The
  first argument is the path walked so far.
\<close>

fun makedirs :: "path \<Rightarrow> node \<Rightarrow> path \<Rightarrow> exn + node" where
  "makedirs seen (File c) [] = Inl (os_error EEXIST seen)"
| "makedirs seen (Dir es) [] = Inr (Dir es)"
| "makedirs seen (File c) (x # xs) = Inl (os_error ENOTDIR (seen @ [x]))"
| "makedirs seen (Dir es) (x # xs) =
     (case makedirs (seen @ [x]) (case map_of es x of None \<Rightarrow> Dir [] | Some sub \<Rightarrow> sub) xs of
        Inl e \<Rightarrow> Inl e
      | Inr n \<Rightarrow> Inr (Dir (AList.update x n es)))"

definition os_makedirs :: "path \<Rightarrow> world \<Rightarrow> unit outcome \<times> world" where
  "os_makedirs p w =
     (case makedirs [] (fs w) p of
        Inl e \<Rightarrow> (Raise e, w)
      | Inr root \<Rightarrow> (Next (), w\<lparr>fs := root\<rparr>))"


text \<open>\<open>file.save(filepath)\<close> of an uploaded file with the given content.\<close>

definition file_save :: "string \<Rightarrow> path \<Rightarrow> world \<Rightarrow> unit outcome \<times> world" where
  "file_save content p w =
     (if p = [] \<or> is_dir (fs w) p then (Raise (os_error EISDIR p), w)
      else if \<not> is_dir (fs w) (butlast p)
      then (Raise (os_error (missing (fs w) p) p), w)
      else (Next (), w\<lparr>fs := replace (fs w) p (Some (File content))\<rparr>))"

subsection \<open>Strings\<close>

definition endswith :: "string \<Rightarrow> string \<Rightarrow> bool" where
  "endswith s suffix = (length suffix \<le> length s \<and> drop (length s - length suffix) s = suffix)"

text \<open>\<open>sep.join(words)\<close>\<close>

fun join :: "string \<Rightarrow> string list \<Rightarrow> string" where
  "join sep [] = []"
| "join sep [x] = x"
| "join sep (x # y # ys) = x @ sep @ join sep (y # ys)"

text \<open>\<open>needle in s\<close> for strings\<close>

fun contains :: "string \<Rightarrow> string \<Rightarrow> bool" where
  "contains [] needle = (needle = [])"
| "contains (c # cs) needle = (take (length needle) (c # cs) = needle \<or> contains cs needle)"

text \<open>
  \<open>s.strip()\<close>. A string is the list of the bytes of its UTF-8 encoding, and the
  characters that \<open>strip\<close> removes are those for which \<open>str.isspace\<close> holds, each in its
  encoding: U+0009 to U+000D, U+001C to U+0020, U+0085, U+00A0, U+1680, U+2000 to U+200A,
  U+2028, U+2029, U+202F, U+205F and U+3000.
\<close>

definition whitespace :: "string list" where
  "whitespace =
     [[CHR 0x09], [CHR 0x0A], [CHR 0x0B], [CHR 0x0C], [CHR 0x0D],
      [CHR 0x1C], [CHR 0x1D], [CHR 0x1E], [CHR 0x1F], [CHR 0x20],
      [CHR 0xC2, CHR 0x85], [CHR 0xC2, CHR 0xA0], [CHR 0xE1, CHR 0x9A, CHR 0x80],
      [CHR 0xE2, CHR 0x80, CHR 0x80], [CHR 0xE2, CHR 0x80, CHR 0x81],
      [CHR 0xE2, CHR 0x80, CHR 0x82], [CHR 0xE2, CHR 0x80, CHR 0x83],
      [CHR 0xE2, CHR 0x80, CHR 0x84], [CHR 0xE2, CHR 0x80, CHR 0x85],
      [CHR 0xE2, CHR 0x80, CHR 0x86], [CHR 0xE2, CHR 0x80, CHR 0x87],
      [CHR 0xE2, CHR 0x80, CHR 0x88], [CHR 0xE2, CHR 0x80, CHR 0x89],
      [CHR 0xE2, CHR 0x80, CHR 0x8A], [CHR 0xE2, CHR 0x80, CHR 0xA8],
      [CHR 0xE2, CHR 0x80, CHR 0xA9], [CHR 0xE2, CHR 0x80, CHR 0xAF],
      [CHR 0xE2, CHR 0x81, CHR 0x9F], [CHR 0xE3, CHR 0x80, CHR 0x80]]"

function strip_front :: "string list \<Rightarrow> string \<Rightarrow> string" where
  "strip_front seqs s =
     (case filter (\<lambda>ws. ws \<noteq> [] \<and> take (length ws) s = ws) seqs of
        [] \<Rightarrow> s
      | ws # rest \<Rightarrow> strip_front seqs (drop (length ws) s))"
  by pat_completeness auto
termination
proof (relation "measure (\<lambda>(seqs, s). length s)")
  fix seqs :: "string list" and s ws :: string and rest
  assume "filter (\<lambda>ws. ws \<noteq> [] \<and> take (length ws) s = ws) seqs = ws # rest"
  then have "ws \<in> set (filter (\<lambda>ws. ws \<noteq> [] \<and> take (length ws) s = ws) seqs)"
    by simp
  then have "ws \<noteq> []" and "take (length ws) s = ws" by simp_all
  then have "s \<noteq> []" by auto
  with \<open>ws \<noteq> []\<close> show "((seqs, drop (length ws) s), (seqs, s)) \<in> measure (\<lambda>(seqs, s). length s)"
    by simp
qed simp

declare strip_front.simps [simp del]

definition strip :: "string \<Rightarrow> string" where
  "strip s = rev (strip_front (map rev whitespace) (rev (strip_front whitespace s)))"

text \<open>\<open>s.split('\n')\<close>: never empty, the empty string splits into one empty string.\<close>

fun split_lines :: "string \<Rightarrow> string list" where
  "split_lines [] = [[]]"
| "split_lines (c # cs) =
     (if c = CHR 0x0A then [] # split_lines cs
      else (case split_lines cs of l # ls \<Rightarrow> (c # l) # ls | [] \<Rightarrow> [[c]]))"

section \<open>The status tracker (lines 34--56)\<close>

definition emit_status_update :: "world \<Rightarrow> world" where
  "emit_status_update w = w\<lparr>events := events w @ [Emit_status_update (pipeline_status w)]\<rparr>"

text \<open>The \<open>print\<close> of \<open>add_log\<close> goes to the console and is left out.\<close>

definition add_log :: "env \<Rightarrow> string \<Rightarrow> level \<Rightarrow> world \<Rightarrow> world" where
  "add_log e msg lvl w =
     (let log_entry = \<lparr>log_timestamp = strftime_now e w, log_message = msg, log_level = lvl\<rparr>
      in w\<lparr>pipeline_status := (pipeline_status w)\<lparr>logs := logs (pipeline_status w) @ [log_entry]\<rparr>,
           events := events w @ [Emit_new_log log_entry]\<rparr>)"

definition update_phase :: "env \<Rightarrow> phase \<Rightarrow> status \<Rightarrow> string \<Rightarrow> world \<Rightarrow> world" where
  "update_phase e ph st msg w =
     (let ps = pipeline_status w;
          w1 = w\<lparr>pipeline_status := ps
                 \<lparr>phases := (phases ps)
                    (ph := (phases ps ph)\<lparr>status := st, timestamp := Some (strftime_now e w),
                                           message := msg\<rparr>),
                  current_phase := phase_name ph\<rparr>\<rparr>;
          w2 = add_log e (''Fase '' @ phase_name ph @ '': '' @ status_name st @ '' - '' @ msg)
                 (if st \<noteq> Error then Info else ErrorLevel) w1
      in emit_status_update w2)"

definition get_host_data_path :: "env \<Rightarrow> string" where
  "get_host_data_path e =
     (case HOST_DATA_PATH e of
        Some host_path \<Rightarrow> if host_path \<noteq> [] then host_path else ''/app/data''
      | None \<Rightarrow> ''/app/data'')"

definition get_data_path :: path where
  "get_data_path = [''app'', ''data'']"

definition subprocess_run ::
  "env \<Rightarrow> string list \<Rightarrow> nat option \<Rightarrow> world \<Rightarrow> completed_process outcome \<times> world" where
  "subprocess_run e cmd timeout w =
     (case subprocess e cmd timeout w of
        (r, root) \<Rightarrow>
          ((case r of Inl x \<Rightarrow> Raise x | Inr result \<Rightarrow> Next result),
           w\<lparr>fs := root, events := events w @ [Subprocess_run cmd timeout r root]\<rparr>))"

definition requests_get_call :: "env \<Rightarrow> string \<Rightarrow> nat \<Rightarrow> world \<Rightarrow> unit outcome \<times> world" where
  "requests_get_call e url timeout w =
     (case requests_get e url timeout w of None \<Rightarrow> (Next (), w) | Some x \<Rightarrow> (Raise x, w))"

text \<open>\<open>time.sleep\<close>: time is not part of the state.\<close>

definition time_sleep :: "nat \<Rightarrow> world \<Rightarrow> world" where
  "time_sleep seconds w = w"

definition set_model_ready :: "bool \<Rightarrow> world \<Rightarrow> world" where
  "set_model_ready b w = w\<lparr>pipeline_status := (pipeline_status w)\<lparr>model_ready := b\<rparr>\<rparr>"

section \<open>The orchestrator: \<open>run_pipeline\<close> (lines 72--289)\<close>

text \<open>The command lines of the three one-shot stages, as the code builds them.\<close>

definition converter_cmd :: "string \<Rightarrow> string list" where
  "converter_cmd host_data_path =
     [''docker'', ''run'', ''--rm'', ''-v'', host_data_path @ '':/data'', ''ml-pipeline-converter'']"

definition cleaning_cmd :: "string \<Rightarrow> string \<Rightarrow> string list" where
  "cleaning_cmd host_data_path filename =
     [''docker'', ''run'', ''--rm'', ''-v'', host_data_path @ '':/data'',
      ''-e'', ''DATASET_FILE='' @ filename, ''ml-pipeline-cleaning'']"

definition training_cmd :: "string \<Rightarrow> string list" where
  "training_cmd host_data_path =
     [''docker'', ''run'', ''--rm'', ''-v'', host_data_path @ '':/data'', ''ml-pipeline-training'']"

text \<open>Lines 95--98 and 142--144: a stale file under the target name is removed, then the
  upload is renamed. Both run inside a \<open>try\<close>.\<close>

definition remove_and_rename :: "path \<Rightarrow> path \<Rightarrow> world \<Rightarrow> unit outcome \<times> world" where
  "remove_and_rename src dst w =
     and_then (if os_path_exists (fs w) dst then os_remove dst w else (Next (), w))
       (\<lambda>_ w1. os_rename src dst w1)"

subsection \<open>Phase 1: conversion of an Excel upload (lines 79--135)\<close>

text \<open>Lines 92--103: the upload takes the name the converter expects.\<close>

definition rename_excel :: "env \<Rightarrow> string \<Rightarrow> world \<Rightarrow> string outcome \<times> world" where
  "rename_excel e filename w =
     (let data_path = get_data_path;
          input_file = os_path_join data_path [''raw'', filename];
          expected_name = ''OnlineRetail.xlsx'';
          expected_path = os_path_join data_path [''raw'', expected_name]
      in if filename \<noteq> expected_name then
           let w1 = add_log e (''Rinomino '' @ filename @ '' in '' @ expected_name) Info w
           in catch
                (and_then (remove_and_rename input_file expected_path w1)
                   (\<lambda>_ w2. (Next expected_name, w2)))
                (\<lambda>x w'.
                   (Return,
                    update_phase e Conversion Error (''Errore nel rinominare il file: '' @ str x)
                      (add_log e (''Errore nel rinominare il file: '' @ str x) ErrorLevel w')))
         else (Next filename, w))"

text \<open>Lines 105--135: the converter container and the check of its output.\<close>

definition run_converter :: "env \<Rightarrow> world \<Rightarrow> string outcome \<times> world" where
  "run_converter e w =
     (let data_path = get_data_path;
          host_data_path = get_host_data_path e;
          cmd = converter_cmd host_data_path;
          w1 = add_log e (''Esecuzione comando: '' @ join '' '' cmd) Info w
      in catch
           (and_then (subprocess_run e cmd (Some 300) w1)
              (\<lambda>result w2.
                 if returncode result = 0 then
                   let w3 = add_log e (''Converter output: '' @ stdout result) Info w2;
                       csv_path = os_path_join data_path [''raw'', ''OnlineRetail.csv'']
                   in if os_path_exists (fs w3) csv_path
                      then (Next ''OnlineRetail.csv'',
                            update_phase e Conversion Completed ''File Excel convertito in CSV'' w3)
                      else (Return,
                            update_phase e Conversion Error ''CSV non creato dopo conversione'' w3)
                 else
                   (Return,
                    update_phase e Conversion Error (''Errore conversione: '' @ stderr result)
                      (add_log e (''Converter error: '' @ stderr result) ErrorLevel w2))))
           (\<lambda>x w'.
              if exn_class_of x = TimeoutExpired
              then (Return, update_phase e Conversion Error ''Timeout durante la conversione'' w')
              else (Return,
                    update_phase e Conversion Error
                      (''Errore esecuzione converter: '' @ str x) w')))"

definition convert_excel :: "env \<Rightarrow> string \<Rightarrow> world \<Rightarrow> string outcome \<times> world" where
  "convert_excel e filename w =
     (let data_path = get_data_path;
          w1 = update_phase e Conversion Running ''Conversione Excel in CSV...'' w;
          input_file = os_path_join data_path [''raw'', filename]
      in if \<not> os_path_exists (fs w1) input_file
         then (Return,
               update_phase e Conversion Error (''File '' @ filename @ '' non trovato'') w1)
         else and_then (rename_excel e filename w1) (\<lambda>filename w2. run_converter e w2))"

subsection \<open>A CSV upload takes the canonical name (lines 136--148)\<close>

definition rename_csv :: "env \<Rightarrow> string \<Rightarrow> world \<Rightarrow> string outcome \<times> world" where
  "rename_csv e filename w =
     (if filename \<noteq> ''OnlineRetail.csv'' then
        let data_path = get_data_path;
            old_path = os_path_join data_path [''raw'', filename];
            new_path = os_path_join data_path [''raw'', ''OnlineRetail.csv'']
        in catch
             (and_then (remove_and_rename old_path new_path w)
                (\<lambda>_ w1. (Next ''OnlineRetail.csv'',
                          add_log e (''Rinominato CSV in '' @ ''OnlineRetail.csv'') Info w1)))
             (\<lambda>x w'.
                (Next filename,
                 add_log e (''Errore nel rinominare CSV: '' @ str x) ErrorLevel w'))
      else (Next filename, w))"

definition phase_conversion :: "env \<Rightarrow> string \<Rightarrow> world \<Rightarrow> string outcome \<times> world" where
  "phase_conversion e filename w =
     (if endswith filename ''.xlsx'' then convert_excel e filename w
      else rename_csv e filename w)"

subsection \<open>Phase 2: cleaning (lines 150--191)\<close>

definition phase_cleaning :: "env \<Rightarrow> string \<Rightarrow> world \<Rightarrow> unit outcome \<times> world" where
  "phase_cleaning e filename w =
     (let data_path = get_data_path;
          host_data_path = get_host_data_path e;
          w1 = update_phase e Cleaning Running ''Pulizia e trasformazione dati...'' w;
          csv_file = os_path_join data_path [''raw'', filename]
      in if \<not> os_path_exists (fs w1) csv_file
         then (Return,
               update_phase e Cleaning Error (''File CSV '' @ filename @ '' non trovato'') w1)
         else
           and_then (os_makedirs (os_path_join data_path [''processed'']) w1)
             (\<lambda>_ w2.
                let cmd = cleaning_cmd host_data_path filename;
                    w3 = add_log e (''Esecuzione comando: '' @ join '' '' cmd) Info w2
                in catch
                     (and_then (subprocess_run e cmd (Some 300) w3)
                        (\<lambda>result w4.
                           if returncode result = 0 then
                             let w5 = add_log e (''Cleaning output: '' @ stdout result) Info w4;
                                 cleaned_path =
                                   os_path_join data_path
                                     [''processed'', ''OnlineRetail_cleaned.csv'']
                             in if os_path_exists (fs w5) cleaned_path
                                then (Next (),
                                      update_phase e Cleaning Completed
                                        ''Dati puliti e trasformati'' w5)
                                else (Return,
                                      update_phase e Cleaning Error ''File pulito non creato'' w5)
                           else
                             (Return,
                              update_phase e Cleaning Error
                                (''Errore pulizia: '' @ stderr result)
                                (add_log e (''Cleaning error: '' @ stderr result) ErrorLevel w4))))
                     (\<lambda>x w'.
                        if exn_class_of x = TimeoutExpired
                        then (Return,
                              update_phase e Cleaning Error ''Timeout durante la pulizia'' w')
                        else (Return,
                              update_phase e Cleaning Error
                                (''Errore esecuzione cleaning: '' @ str x) w'))))"

subsection \<open>Phase 3: training (lines 193--227)\<close>

definition phase_training :: "env \<Rightarrow> world \<Rightarrow> unit outcome \<times> world" where
  "phase_training e w =
     (let data_path = get_data_path;
          host_data_path = get_host_data_path e;
          w1 = update_phase e Training Running ''Addestramento modello ML...'' w
      in and_then (os_makedirs (os_path_join data_path [''model'']) w1)
           (\<lambda>_ w2.
              let cmd = training_cmd host_data_path;
                  w3 = add_log e (''Esecuzione comando: '' @ join '' '' cmd) Info w2
              in catch
                   (and_then (subprocess_run e cmd (Some 600) w3)
                      (\<lambda>result w4.
                         if returncode result = 0 then
                           let w5 = add_log e (''Training output: '' @ stdout result) Info w4;
                               model_path = os_path_join data_path [''model'', ''model.pkl'']
                           in if os_path_exists (fs w5) model_path
                              then (Next (),
                                    update_phase e Training Completed
                                      ''Modello addestrato con successo'' w5)
                              else (Return,
                                    update_phase e Training Error ''Modello non creato'' w5)
                         else
                           (Return,
                            update_phase e Training Error
                              (''Errore training: '' @ stderr result)
                              (add_log e (''Training error: '' @ stderr result) ErrorLevel w4))))
                   (\<lambda>x w'.
                      if exn_class_of x = TimeoutExpired
                      then (Return,
                            update_phase e Training Error ''Timeout durante il training'' w')
                      else (Return,
                            update_phase e Training Error
                              (''Errore esecuzione training: '' @ str x) w'))))"

subsection \<open>Phase 4: the inference service (lines 229--286)\<close>

text \<open>\<open>except C as e\<close> for one class: other exceptions pass through.\<close>

definition catch_only ::
  "exn_class \<Rightarrow> 'a outcome \<times> world \<Rightarrow> (exn \<Rightarrow> world \<Rightarrow> 'a outcome \<times> world) \<Rightarrow>
     'a outcome \<times> world" where
  "catch_only c r handler =
     (case r of
        (Raise x, w) \<Rightarrow> if exn_class_of x = c then handler x w else (Raise x, w)
      | _ \<Rightarrow> r)"

definition network_cmd :: "string list" where
  "network_cmd =
     [''docker'', ''network'', ''ls'', ''--format'', ''{{.Name}}'',
      ''--filter'', ''name=ml_pipeline_network'']"

definition inference_cmd :: "string \<Rightarrow> string \<Rightarrow> string list" where
  "inference_cmd host_data_path network_name =
     [''docker'', ''run'', ''-d'', ''--name'', ''ml_inference_service'',
      ''--network'', network_name,
      ''-v'', host_data_path @ '':/data'',
      ''-p'', ''5000:5000'',
      ''ml-pipeline-inference'']"

definition ps_cmd :: "string list" where
  "ps_cmd =
     [''docker'', ''ps'', ''--filter'', ''name=ml_inference_service'', ''--format'', ''{{.Status}}'']"

text \<open>Lines 264--284: what follows the start of the container. The \<open>e\<close> with a grave
  accent of the last message is written as its two UTF-8 bytes.\<close>

definition probe_service :: "env \<Rightarrow> completed_process \<Rightarrow> world \<Rightarrow> unit outcome \<times> world" where
  "probe_service e result w =
     (if returncode result = 0 then
        let w1 = time_sleep 5 w
        in catch_only RequestException
             (and_then (requests_get_call e ''http://ml_inference_service:5000/predict'' 10 w1)
                (\<lambda>_ w2.
                   (Next (),
                    set_model_ready True
                      (update_phase e Inference Completed ''Servizio attivo su porta 5000'' w2))))
             (\<lambda>x w'.
                and_then (subprocess_run e ps_cmd None w')
                  (\<lambda>check_result w2.
                     if contains (stdout check_result) ''Up''
                     then (Next (),
                           set_model_ready True
                             (update_phase e Inference Completed
                                ''Servizio in avvio su porta 5000'' w2))
                     else (Next (),
                           update_phase e Inference Error
                             (''Servizio non si '' @ [CHR 0xC3, CHR 0xA8]
                                @ '' avviato correttamente'') w2)))
      else
        (Next (),
         update_phase e Inference Error (''Errore inferenza: '' @ stderr result)
           (add_log e (''Inference error: '' @ stderr result) ErrorLevel w)))"

text \<open>Lines 238--262, inside the \<open>try\<close>: the network is looked up and the container is
  started.\<close>

definition launch_service :: "env \<Rightarrow> world \<Rightarrow> completed_process outcome \<times> world" where
  "launch_service e w =
     (let host_data_path = get_host_data_path e
      in and_then (subprocess_run e network_cmd None w)
           (\<lambda>network_result w1.
              let networks = split_lines (strip (stdout network_result));
                  network_name =
                    (if networks \<noteq> [] \<and> hd networks \<noteq> [] then hd networks
                     else ''ml_pipeline_network'');
                  w2 = (if networks \<noteq> [] \<and> hd networks \<noteq> []
                        then add_log e (''Trovata rete Docker: '' @ network_name) Info w1
                        else add_log e
                               (''Nessuna rete trovata, utilizzo default: '' @ network_name)
                               Warning w1);
                  cmd = inference_cmd host_data_path network_name;
                  w3 = add_log e (''Esecuzione comando: '' @ join '' '' cmd) Info w2
              in subprocess_run e cmd None w3))"

text \<open>Lines 237--286: the \<open>try\<close> around the start of the service and its handler.\<close>

definition start_service :: "env \<Rightarrow> world \<Rightarrow> unit outcome \<times> world" where
  "start_service e w =
     catch
       (and_then (launch_service e w) (\<lambda>result w4. probe_service e result w4))
       (\<lambda>x w'.
          (Next (),
           update_phase e Inference Error (''Errore avvio inferenza: '' @ str x) w'))"

definition phase_inference :: "env \<Rightarrow> world \<Rightarrow> unit outcome \<times> world" where
  "phase_inference e w =
     (let w1 = update_phase e Inference Running ''Avvio servizio di inferenza...'' w
      in and_then (subprocess_run e [''docker'', ''stop'', ''ml_inference_service''] None w1)
           (\<lambda>_ w2.
         and_then (subprocess_run e [''docker'', ''rm'', ''ml_inference_service''] None w2)
           (\<lambda>_ w3. start_service e w3)))"

subsection \<open>The whole run\<close>

definition run_pipeline_body :: "env \<Rightarrow> string \<Rightarrow> world \<Rightarrow> unit outcome \<times> world" where
  "run_pipeline_body e filename w =
     and_then (phase_conversion e filename w)
       (\<lambda>filename w1. and_then (phase_cleaning e filename w1)
       (\<lambda>_ w2. and_then (phase_training e w2)
       (\<lambda>_ w3. phase_inference e w3)))"

text \<open>Lines 288--289: the handler around the whole body; a \<open>return\<close> inside the body and
  the end of the body both end the function.\<close>

definition run_pipeline :: "env \<Rightarrow> string \<Rightarrow> world \<Rightarrow> unit outcome \<times> world" where
  "run_pipeline e filename w =
     (case catch (run_pipeline_body e filename w)
             (\<lambda>x w'. (Next (), add_log e (''Errore nella pipeline: '' @ str x) ErrorLevel w')) of
        (Return, w') \<Rightarrow> (Next (), w')
      | r \<Rightarrow> r)"

section \<open>The request handlers\<close>

datatype response = Response nat json

subsection \<open>\<open>upload_file\<close> (lines 295--328)\<close>

text \<open>Lines 306--309. The loop visits the keys of the dictionary in their order.\<close>

definition reset_phases :: "PipelineStatus \<Rightarrow> PipelineStatus" where
  "reset_phases ps =
     fold (\<lambda>ph ps'. ps'\<lparr>phases := (phases ps')(ph := pending_state)\<rparr>) all_phases ps"

definition reset_on_upload :: "PipelineStatus \<Rightarrow> PipelineStatus" where
  "reset_on_upload ps = (reset_phases ps)\<lparr>logs := [], model_ready := False\<rparr>"

definition UPLOAD_FOLDER :: path where
  "UPLOAD_FOLDER = [''app'', ''data'', ''raw'']"

text \<open>
  The request carries no file part (\<open>None\<close>) or a file with its name and content. The
  handler answers, and on a valid upload it also starts the thread that runs
  \<open>run_pipeline\<close> on the returned file name. An exception that leaves the handler is
  \<open>Raise\<close>.
\<close>

definition upload_file ::
  "env \<Rightarrow> (string \<times> string) option \<Rightarrow> world \<Rightarrow> (response \<times> string option) outcome \<times> world" where
  "upload_file e request_file w =
     (case request_file of
        None \<Rightarrow> (Next (Response 400 (jsonify (JObject [(''error'', JString ''Nessun file selezionato'')])), None), w)
      | Some (file_filename, content) \<Rightarrow>
          if file_filename = []
          then (Next (Response 400 (jsonify (JObject [(''error'', JString ''Nessun file selezionato'')])), None), w)
          else if endswith file_filename ''.xlsx'' \<or> endswith file_filename ''.csv'' then
            let w1 = w\<lparr>pipeline_status := reset_on_upload (pipeline_status w)\<rparr>;
                filename = secure_filename e file_filename;
                filepath = os_path_join UPLOAD_FOLDER [filename]
            in and_then (os_makedirs UPLOAD_FOLDER w1)
                 (\<lambda>_ w2. and_then (file_save content filepath w2)
                 (\<lambda>_ w3.
                    let w4 = update_phase e Upload Completed
                               (''File '' @ filename @ '' caricato con successo'') w3
                    in (Next (Response 200
                                (jsonify (JObject [(''success'', JBool True), (''filename'', JString filename)])),
                              Some filename), w4)))
          else (Next (Response 400
                        (jsonify (JObject [(''error'',
                                   JString ''Formato file non supportato. Usa .xlsx o .csv'')])),
                      None), w))"

text \<open>A trigger and its run, one after the other: the handler, then the thread it
  started, with nothing else running in between.\<close>

definition upload_and_run :: "env \<Rightarrow> (string \<times> string) option \<Rightarrow> world \<Rightarrow> world" where
  "upload_and_run e request_file w =
     (case upload_file e request_file w of
        (Next (resp, Some filename), w1) \<Rightarrow> snd (run_pipeline e filename w1)
      | (_, w1) \<Rightarrow> w1)"

subsection \<open>\<open>predict\<close> (lines 363--376)\<close>

text \<open>
  \<open>request_json\<close> is what \<open>request.json\<close> gives: the payload, or the exception it raises
  on a body that is not JSON. \<open>requests_post\<close> raises or gives a response, whose
  \<open>.json()\<close> in turn is a value or raises.
\<close>

definition predict :: "env \<Rightarrow> exn + json \<Rightarrow> world \<Rightarrow> response outcome \<times> world" where
  "predict e request_json w =
     catch
       (and_then (case request_json of Inl x \<Rightarrow> (Raise x, w) | Inr d \<Rightarrow> (Next d, w))
          (\<lambda>data w1.
             catch_only RequestException
               (and_then
                  (case requests_post e ''http://ml_inference_service:5000/predict'' data 5 w1 of
                     Inl x \<Rightarrow> (Raise x, w1)
                   | Inr response \<Rightarrow> (Next response, w1))
                  (\<lambda>response w2.
                     case response of
                       Inl x \<Rightarrow> (Raise x, w2)
                     | Inr body \<Rightarrow> (Next (Response 200 (jsonify body)), w2)))
               (\<lambda>x w'.
                  (Next (Response 503
                           (jsonify (JObject [(''error'', JString ''Servizio di inferenza non disponibile'')]))),
                   add_log e (''Errore chiamata inferenza: '' @ str x) ErrorLevel w'))))
       (\<lambda>x w'. (Next (Response 500 (jsonify (JObject [(''error'', JString (str x))]))), w'))"

subsection \<open>\<open>clear_data\<close> (lines 408--435)\<close>



definition reset_on_clear :: "PipelineStatus \<Rightarrow> PipelineStatus" where
  "reset_on_clear ps =
     (reset_phases ps)\<lparr>logs := [], model_ready := False, current_phase := ''idle''\<rparr>"


section \<open>Traces of a run\<close>

text \<open>
  The events a piece of the program added to the record, the status snapshots among
  them, and the statuses of the five phases in a snapshot.
\<close>

definition new_events :: "world \<Rightarrow> world \<Rightarrow> event list" where
  "new_events w w' = drop (length (events w)) (events w')"

fun snapshots :: "event list \<Rightarrow> PipelineStatus list" where
  "snapshots [] = []"
| "snapshots (Emit_status_update s # es) = s # snapshots es"
| "snapshots (ev # es) = snapshots es"

definition statuses :: "PipelineStatus \<Rightarrow> phase \<Rightarrow> status" where
  "statuses s ph = status (phases s ph)"

definition has_error :: "(phase \<Rightarrow> status) \<Rightarrow> bool" where
  "has_error \<sigma> = list_ex (\<lambda>ph. \<sigma> ph = Error) all_phases"

text \<open>Every phase ordered after a phase in error is pending.\<close>

definition later_pending :: "(phase \<Rightarrow> status) \<Rightarrow> bool" where
  "later_pending \<sigma> =
     list_all (\<lambda>p. \<sigma> p = Error \<longrightarrow>
        list_all (\<lambda>q. phase_index p < phase_index q \<longrightarrow> \<sigma> q = Pending) all_phases)
       all_phases"

text \<open>One status change of one phase along pending, running, completed or error.\<close>

definition forward :: "status \<Rightarrow> status \<Rightarrow> bool" where
  "forward a b = ((a = Pending \<and> b = Running) \<or> (a = Running \<and> (b = Completed \<or> b = Error)))"

text \<open>From one snapshot to the next every phase keeps its status or moves forward.\<close>

definition step_ok :: "(phase \<Rightarrow> status) \<Rightarrow> (phase \<Rightarrow> status) \<Rightarrow> bool" where
  "step_ok \<sigma> \<sigma>' = list_all (\<lambda>ph. \<sigma>' ph = \<sigma> ph \<or> forward (\<sigma> ph) (\<sigma>' ph)) all_phases"

text \<open>
  A trace is well sequenced from the statuses \<open>\<sigma>\<close> when every snapshot is a legal step
  from the one before, has only pending phases after a phase in error, and is the last
  event of the trace if it shows an error.
\<close>

fun well_sequenced :: "(phase \<Rightarrow> status) \<Rightarrow> event list \<Rightarrow> bool" where
  "well_sequenced \<sigma> [] = True"
| "well_sequenced \<sigma> (Emit_status_update s # es) =
     (step_ok \<sigma> (statuses s) \<and> later_pending (statuses s)
      \<and> (has_error (statuses s) \<longrightarrow> es = []) \<and> well_sequenced (statuses s) es)"
| "well_sequenced \<sigma> (ev # es) = well_sequenced \<sigma> es"

fun final_statuses :: "(phase \<Rightarrow> status) \<Rightarrow> event list \<Rightarrow> phase \<Rightarrow> status" where
  "final_statuses \<sigma> [] = \<sigma>"
| "final_statuses \<sigma> (Emit_status_update s # es) = final_statuses (statuses s) es"
| "final_statuses \<sigma> (ev # es) = final_statuses \<sigma> es"

definition trace_ok :: "world \<Rightarrow> world \<Rightarrow> bool" where
  "trace_ok w w' =
     (events w' = events w @ new_events w w'
      \<and> well_sequenced (statuses (pipeline_status w)) (new_events w w')
      \<and> list_all (\<lambda>ph. statuses (pipeline_status w') ph
                        = final_statuses (statuses (pipeline_status w)) (new_events w w') ph)
          all_phases)"

text \<open>No phase is in error and every phase from \<open>p\<close> on is pending.\<close>

definition ready_from :: "phase \<Rightarrow> PipelineStatus \<Rightarrow> bool" where
  "ready_from p s =
     (\<not> has_error (statuses s)
      \<and> list_all (\<lambda>q. phase_index p \<le> phase_index q \<longrightarrow> statuses s q = Pending) all_phases)"

section \<open>What a run does, seen from outside\<close>

text \<open>
  The events of a run without the log lines: every status broadcast as the update that
  caused it (the phase named by \<open>current_phase\<close>, with its status and message), and every
  command as it was run.
\<close>

datatype act =
    Upd phase status string
  | Cmd "string list" "nat option" "exn + completed_process" node

definition phase_of_name :: "string \<Rightarrow> phase option" where
  "phase_of_name name = find (\<lambda>ph. phase_name ph = name) all_phases"

fun acts :: "event list \<Rightarrow> act list" where
  "acts [] = []"
| "acts (Emit_status_update s # es) =
     (case phase_of_name (current_phase s) of
        Some ph \<Rightarrow> Upd ph (status (phases s ph)) (message (phases s ph)) # acts es
      | None \<Rightarrow> acts es)"
| "acts (Emit_new_log l # es) = acts es"
| "acts (Subprocess_run c t r root # es) = Cmd c t r root # acts es"

text \<open>Status and message of every phase.\<close>

definition view :: "PipelineStatus \<Rightarrow> phase \<Rightarrow> status \<times> string" where
  "view s ph = (status (phases s ph), message (phases s ph))"

text \<open>
  \<open>replays v es v'\<close>: from the view \<open>v\<close>, every snapshot among the events \<open>es\<close> changes the
  view of the phase it names and of no other, and the last view is \<open>v'\<close>.
\<close>

fun replays ::
  "(phase \<Rightarrow> status \<times> string) \<Rightarrow> event list \<Rightarrow> (phase \<Rightarrow> status \<times> string) \<Rightarrow> bool" where
  "replays v [] v' = list_all (\<lambda>ph. v' ph = v ph) all_phases"
| "replays v (Emit_status_update s # es) v' =
     (list_all (\<lambda>ph. current_phase s = phase_name ph \<or> view s ph = v ph) all_phases
      \<and> replays (view s) es v')"
| "replays v (ev # es) v' = replays v es v'"

definition extends :: "world \<Rightarrow> world \<Rightarrow> bool" where
  "extends w w' = (events w' = events w @ new_events w w')"

text \<open>\<open>follows w w'\<close>: the world \<open>w'\<close> comes after \<open>w\<close>; its events continue those of \<open>w\<close>
  and its statuses are those of \<open>w\<close> changed by the broadcast updates in between.\<close>

definition follows :: "world \<Rightarrow> world \<Rightarrow> bool" where
  "follows w w' =
     (extends w w'
      \<and> replays (view (pipeline_status w)) (new_events w w') (view (pipeline_status w')))"

text \<open>
  What the three one-shot stages make of a finished command (lines 116--135, 173--191,
  209--227): the artifact each one looks for, and the status and message it records.
\<close>

fun expected_artifact :: "phase \<Rightarrow> path" where
  "expected_artifact Conversion = os_path_join get_data_path [''raw'', ''OnlineRetail.csv'']"
| "expected_artifact Cleaning =
     os_path_join get_data_path [''processed'', ''OnlineRetail_cleaned.csv'']"
| "expected_artifact Training = os_path_join get_data_path [''model'', ''model.pkl'']"
| "expected_artifact ph = []"

fun completed_message :: "phase \<Rightarrow> string" where
  "completed_message Conversion = ''File Excel convertito in CSV''"
| "completed_message Cleaning = ''Dati puliti e trasformati''"
| "completed_message Training = ''Modello addestrato con successo''"
| "completed_message ph = []"

fun missing_output_message :: "phase \<Rightarrow> string" where
  "missing_output_message Conversion = ''CSV non creato dopo conversione''"
| "missing_output_message Cleaning = ''File pulito non creato''"
| "missing_output_message Training = ''Modello non creato''"
| "missing_output_message ph = []"

fun failure_message :: "phase \<Rightarrow> string \<Rightarrow> string" where
  "failure_message Conversion err = ''Errore conversione: '' @ err"
| "failure_message Cleaning err = ''Errore pulizia: '' @ err"
| "failure_message Training err = ''Errore training: '' @ err"
| "failure_message ph err = []"

fun exception_message :: "phase \<Rightarrow> exn \<Rightarrow> string" where
  "exception_message Conversion x =
     (if exn_class_of x = TimeoutExpired then ''Timeout durante la conversione''
      else ''Errore esecuzione converter: '' @ str x)"
| "exception_message Cleaning x =
     (if exn_class_of x = TimeoutExpired then ''Timeout durante la pulizia''
      else ''Errore esecuzione cleaning: '' @ str x)"
| "exception_message Training x =
     (if exn_class_of x = TimeoutExpired then ''Timeout durante il training''
      else ''Errore esecuzione training: '' @ str x)"
| "exception_message ph x = []"

fun stage_verdict :: "phase \<Rightarrow> exn + completed_process \<Rightarrow> node \<Rightarrow> status \<times> string" where
  "stage_verdict ph (Inl x) root = (Error, exception_message ph x)"
| "stage_verdict ph (Inr result) root =
     (if returncode result = 0 then
        if os_path_exists root (expected_artifact ph) then (Completed, completed_message ph)
        else (Error, missing_output_message ph)
      else (Error, failure_message ph (stderr result)))"

text \<open>The image a stage runs, the last word of its command line.\<close>

fun stage_image :: "phase \<Rightarrow> string" where
  "stage_image Conversion = ''ml-pipeline-converter''"
| "stage_image Cleaning = ''ml-pipeline-cleaning''"
| "stage_image Training = ''ml-pipeline-training''"
| "stage_image ph = []"

definition runs_stage :: "phase \<Rightarrow> string list \<Rightarrow> bool" where
  "runs_stage ph cmd = (cmd \<noteq> [] \<and> last cmd = stage_image ph \<and> stage_image ph \<noteq> [])"

text \<open>
  Shapes of the acts of one phase. \<open>verdict_acts\<close>: the command and the update its verdict
  asks for. \<open>failed_at\<close>: one update to error. \<open>phase_acts\<close>: the update to running, then
  nothing more (an exception left the phase), an error, or the command and its verdict.
  The flag tells whether the phase completed, that is, whether the run goes on.
\<close>

fun verdict_acts :: "phase \<Rightarrow> string list \<Rightarrow> nat \<Rightarrow> act list \<Rightarrow> bool \<Rightarrow> bool" where
  "verdict_acts ph cmd timeout [Cmd c t r root, Upd p s m] completed =
     (c = cmd \<and> t = Some timeout \<and> p = ph \<and> (s, m) = stage_verdict ph r root
      \<and> completed = (s = Completed))"
| "verdict_acts ph cmd timeout as completed = False"

fun failed_at :: "phase \<Rightarrow> act list \<Rightarrow> bool" where
  "failed_at ph [Upd p s m] = (p = ph \<and> s = Error)"
| "failed_at ph as = False"

fun phase_acts :: "phase \<Rightarrow> string list \<Rightarrow> nat \<Rightarrow> act list \<Rightarrow> bool \<Rightarrow> bool" where
  "phase_acts ph cmd timeout (Upd p s m # rest) completed =
     (p = ph \<and> s = Running
      \<and> ((rest = [] \<and> \<not> completed) \<or> (failed_at ph rest \<and> \<not> completed)
         \<or> verdict_acts ph cmd timeout rest completed))"
| "phase_acts ph cmd timeout as completed = False"

text \<open>The acts of the inference phase after its update to running: commands, none of
  them a stage, and at the very end at most one update of the inference phase, to
  completed or to error.\<close>

fun service_acts :: "act list \<Rightarrow> bool" where
  "service_acts [] = True"
| "service_acts [Upd p s m] = (p = Inference \<and> (s = Completed \<or> s = Error))"
| "service_acts (Cmd c t r root # as) =
     (\<not> runs_stage Conversion c \<and> \<not> runs_stage Cleaning c \<and> \<not> runs_stage Training c
      \<and> service_acts as)"
| "service_acts (Upd p s m # a # as) = False"

section \<open>Example environments\<close>

text \<open>
  A data directory with the three folders and an uploaded \<open>sales.csv\<close>, and collaborators
  that all work: every worker exits with code 0 and leaves its artifact, one network
  matches the filter, and the inference worker answers.
\<close>

definition example_fs :: node where
  "example_fs =
     Dir [(''app'', Dir [(''data'',
       Dir [(''raw'', Dir [(''sales.csv'', File ''InvoiceNo,Quantity'')]),
            (''processed'', Dir []),
            (''model'', Dir [])])])]"

definition example_world :: world where
  "example_world = \<lparr>pipeline_status = initial_status, fs = example_fs, events = []\<rparr>"

definition worker_output :: "string list \<Rightarrow> node \<Rightarrow> node" where
  "worker_output cmd root =
     (if cmd \<noteq> [] \<and> last cmd = ''ml-pipeline-converter''
      then replace root [''app'', ''data'', ''raw'', ''OnlineRetail.csv''] (Some (File ''csv''))
      else if cmd \<noteq> [] \<and> last cmd = ''ml-pipeline-cleaning''
      then replace root [''app'', ''data'', ''processed'', ''OnlineRetail_cleaned.csv'']
             (Some (File ''cleaned''))
      else if cmd \<noteq> [] \<and> last cmd = ''ml-pipeline-training''
      then replace root [''app'', ''data'', ''model'', ''model.pkl''] (Some (File ''model''))
      else root)"

definition good_env :: env where
  "good_env =
     \<lparr>HOST_DATA_PATH = Some ''/srv/data'',
      subprocess = (\<lambda>cmd timeout w.
        (Inr \<lparr>returncode = 0,
              stdout = (if cmd = network_cmd then ''sdcc_ml_pipeline_network'' else ''done''),
              stderr = []\<rparr>,
         worker_output cmd (fs w))),
      requests_get = (\<lambda>url timeout w. None),
      requests_post = (\<lambda>url payload timeout w. Inr (Inr (JObject [(''prediction'', JNumber 3)]))),
      strftime_now = (\<lambda>w. ''12:00:00''),
      secure_filename = (\<lambda>name. name)\<rparr>"

text \<open>The same, with the inference worker unreachable.\<close>

definition down_env :: env where
  "down_env =
     good_env\<lparr>requests_post :=
       (\<lambda>url payload timeout w. Inl (Exn RequestException ''Connection refused''))\<rparr>"

text \<open>Commands only, none of them a stage.\<close>

fun only_service_cmds :: "act list \<Rightarrow> bool" where
  "only_service_cmds [] = True"
| "only_service_cmds (Cmd c t r root # as) =
     (\<not> runs_stage Conversion c \<and> \<not> runs_stage Cleaning c \<and> \<not> runs_stage Training c
      \<and> only_service_cmds as)"
| "only_service_cmds (a # as) = False"

text \<open>A data directory in which \<open>processed\<close> is a regular file, so that
  \<open>os.makedirs('/app/data/processed', exist_ok=True)\<close> raises \<open>FileExistsError\<close>.\<close>

definition blocked_fs :: node where
  "blocked_fs =
     Dir [(''app'', Dir [(''data'',
       Dir [(''raw'', Dir []),
            (''processed'', File []),
            (''model'', Dir [])])])]"

definition blocked_world :: world where
  "blocked_world = \<lparr>pipeline_status = initial_status, fs = blocked_fs, events = []\<rparr>"

text \<open>
  The state a finished run leaves behind: every phase completed, the flag set, the
  inference phase as current phase. In the data directory the name \<open>sales.csv\<close> is
  taken by a directory, so that saving an upload of that name raises.
\<close>

definition finished_status :: PipelineStatus where
  "finished_status =
     \<lparr>current_phase = ''inference'',
      phases = (\<lambda>ph. \<lparr>status = Completed, timestamp = Some ''12:00:00'', message = []\<rparr>),
      model_ready = True,
      logs = []\<rparr>"

definition finished_world :: world where
  "finished_world =
     \<lparr>pipeline_status = finished_status,
      fs = Dir [(''app'', Dir [(''data'', Dir [(''raw'', Dir [(''sales.csv'', Dir [])])])])],
      events = []\<rparr>"

text \<open>The same as \<open>good_env\<close>, with an inference worker that answers with two keys, a
  float among the values.\<close>

definition answering_env :: env where
  "answering_env =
     good_env\<lparr>requests_post :=
       (\<lambda>url payload timeout w.
          Inr (Inr (JObject [(''status'', JString ''success''),
                             (''predicted_value'', JFloat ''12.5'')])))\<rparr>"



section \<open>The order of a run\<close>

text \<open>
  A run seen as an automaton over its acts. The state is the phase the run is in and
  the status of that phase. A phase is set to running only when the phase before it in
  the run has completed, and it comes later in the fixed sequence; the phase that is
  running is set to completed or to error; a command runs only while a phase is running.
  Nothing is accepted once a phase is in error. \<open>advance\<close> gives the state after the acts,
  or \<open>None\<close> when an act is out of order.
\<close>

fun advance :: "phase \<times> status \<Rightarrow> act list \<Rightarrow> (phase \<times> status) option" where
  "advance st [] = Some st"
| "advance (p, s) (Cmd c t r root # as) = (if s = Running then advance (p, s) as else None)"
| "advance (p, s) (Upd q t m # as) =
     (if t = Running \<and> s = Completed \<and> phase_index p < phase_index q
      then advance (q, Running) as
      else if q = p \<and> s = Running \<and> (t = Completed \<or> t = Error) then advance (p, t) as
      else None)"

text \<open>The acts of the inference phase: the update to running, then the acts of the
  service.\<close>

fun inference_acts :: "act list \<Rightarrow> bool" where
  "inference_acts (Upd p s m # rest) = (p = Inference \<and> s = Running \<and> service_acts rest)"
| "inference_acts as = False"

text \<open>Every update in a list of acts is a step forward for its phase, from the statuses
  \<open>\<sigma>\<close> on.\<close>

fun forward_acts :: "(phase \<Rightarrow> status) \<Rightarrow> act list \<Rightarrow> bool" where
  "forward_acts \<sigma> [] = True"
| "forward_acts \<sigma> (Cmd c t r root # as) = forward_acts \<sigma> as"
| "forward_acts \<sigma> (Upd p s m # as) = (forward (\<sigma> p) s \<and> forward_acts (\<sigma>(p := s)) as)"

text \<open>The same collaborators as \<open>good_env\<close>, but every container exits with code 1 and
  leaves the files as they are.\<close>

definition failing_env :: env where
  "failing_env =
     good_env\<lparr>subprocess := (\<lambda>cmd timeout w.
        (Inr \<lparr>returncode = 1, stdout = [], stderr = ''no space left on device''\<rparr>, fs w))\<rparr>"

text \<open>The upload of a file \<open>sales.csv\<close>.\<close>

definition sales_upload :: "(string \<times> string) option" where
  "sales_upload = Some (''sales.csv'', ''InvoiceNo,Quantity'')"

text \<open>
  The stage a command runs, by its image, and the commands of a list of acts judged:
  every command that runs a stage is followed at once by the update of that stage its
  verdict asks for.
\<close>

definition stage_of :: "string list \<Rightarrow> phase option" where
  "stage_of c =
     (if runs_stage Conversion c then Some Conversion
      else if runs_stage Cleaning c then Some Cleaning
      else if runs_stage Training c then Some Training
      else None)"

fun judged :: "act list \<Rightarrow> bool" where
  "judged [] = True"
| "judged (Upd p s m # as) = judged as"
| "judged (Cmd c t r root # Upd p s m # as) =
     (case stage_of c of
        None \<Rightarrow> judged as
      | Some ph \<Rightarrow> p = ph \<and> (s, m) = stage_verdict ph r root \<and> judged as)"
| "judged (Cmd c t r root # as) = (stage_of c = None \<and> judged as)"

text \<open>The same collaborators as \<open>good_env\<close>, but every container exits with code 0 and
  leaves the files as they are: no stage writes its artifact.\<close>

definition idle_env :: env where
  "idle_env =
     good_env\<lparr>subprocess := (\<lambda>cmd timeout w.
        (Inr \<lparr>returncode = 0, stdout = ''done'', stderr = []\<rparr>, fs w))\<rparr>"

text \<open>
  Two data directories in which the canonical name \<open>OnlineRetail.csv\<close> is taken by a
  directory, so that renaming an upload to it raises. In the second one \<open>processed\<close> is
  a regular file as well.
\<close>

definition taken_fs :: node where
  "taken_fs =
     Dir [(''app'', Dir [(''data'',
       Dir [(''raw'', Dir [(''OnlineRetail.csv'', Dir [])]),
            (''processed'', Dir []),
            (''model'', Dir [])])])]"

definition taken_world :: world where
  "taken_world = \<lparr>pipeline_status = initial_status, fs = taken_fs, events = []\<rparr>"

definition stuck_fs :: node where
  "stuck_fs =
     Dir [(''app'', Dir [(''data'',
       Dir [(''raw'', Dir [(''OnlineRetail.csv'', Dir [])]),
            (''processed'', File []),
            (''model'', Dir [])])])]"

definition stuck_world :: world where
  "stuck_world = \<lparr>pipeline_status = initial_status, fs = stuck_fs, events = []\<rparr>"

section \<open>Properties\<close>

subsection \<open>What the primitives change\<close>

lemma phase_state_all_updates:
  "(r::phase_state)\<lparr>status := st, timestamp := t, message := m\<rparr> =
     \<lparr>status = st, timestamp = t, message = m\<rparr>"
  by (cases r) simp

lemma add_log_proj [simp]:
  "phases (pipeline_status (add_log e m l w)) = phases (pipeline_status w)"
  "model_ready (pipeline_status (add_log e m l w)) = model_ready (pipeline_status w)"
  "current_phase (pipeline_status (add_log e m l w)) = current_phase (pipeline_status w)"
  "fs (add_log e m l w) = fs w"
  "events (add_log e m l w) =
     events w @ [Emit_new_log (last (logs (pipeline_status (add_log e m l w))))]"
  "view (pipeline_status (add_log e m l w)) = view (pipeline_status w)"
  by (simp_all add: add_log_def Let_def view_def fun_eq_iff)

lemma update_phase_proj [simp]:
  "phases (pipeline_status (update_phase e p st m w)) =
     (phases (pipeline_status w))
       (p := \<lparr>status = st, timestamp = Some (strftime_now e w), message = m\<rparr>)"
  "model_ready (pipeline_status (update_phase e p st m w)) = model_ready (pipeline_status w)"
  "current_phase (pipeline_status (update_phase e p st m w)) = phase_name p"
  "fs (update_phase e p st m w) = fs w"
  "events (update_phase e p st m w) = events w @
     [Emit_new_log (last (logs (pipeline_status (update_phase e p st m w)))),
      Emit_status_update (pipeline_status (update_phase e p st m w))]"
  "view (pipeline_status (update_phase e p st m w)) = (view (pipeline_status w))(p := (st, m))"
  by (simp_all add: update_phase_def add_log_def emit_status_update_def Let_def
      phase_state_all_updates view_def fun_eq_iff)

lemma set_model_ready_proj [simp]:
  "phases (pipeline_status (set_model_ready b w)) = phases (pipeline_status w)"
  "model_ready (pipeline_status (set_model_ready b w)) = b"
  "fs (set_model_ready b w) = fs w"
  "events (set_model_ready b w) = events w"
  "view (pipeline_status (set_model_ready b w)) = view (pipeline_status w)"
  by (simp_all add: set_model_ready_def view_def fun_eq_iff)

lemma and_then_alt:
  "and_then m f = (case fst m of Next a \<Rightarrow> f a (snd m) | Return \<Rightarrow> (Return, snd m)
                   | Raise x \<Rightarrow> (Raise x, snd m))"
  by (cases m) (simp add: and_then_def split: outcome.split)

lemma catch_alt:
  "catch m h = (case fst m of Raise x \<Rightarrow> h x (snd m) | Next a \<Rightarrow> (Next a, snd m)
                | Return \<Rightarrow> (Return, snd m))"
  by (cases m) (simp add: catch_def split: outcome.split)

lemma catch_only_alt:
  "catch_only c m h =
     (case fst m of Raise x \<Rightarrow> if exn_class_of x = c then h x (snd m) else (Raise x, snd m)
      | Next a \<Rightarrow> (Next a, snd m) | Return \<Rightarrow> (Return, snd m))"
  by (cases m) (simp add: catch_only_def split: outcome.split)

lemmas flow = and_then_alt catch_alt catch_only_alt Let_def

lemma subprocess_run_proj [simp]:
  "pipeline_status (snd (subprocess_run e c t w)) = pipeline_status w"
  "fs (snd (subprocess_run e c t w)) = snd (subprocess e c t w)"
  "events (snd (subprocess_run e c t w)) =
     events w @ [Subprocess_run c t (fst (subprocess e c t w)) (snd (subprocess e c t w))]"
  "fst (subprocess_run e c t w) =
     (case fst (subprocess e c t w) of Inl x \<Rightarrow> Raise x | Inr result \<Rightarrow> Next result)"
  by (simp_all add: subprocess_run_def split: prod.split)

lemma os_makedirs_proj [simp]:
  "pipeline_status (snd (os_makedirs p w)) = pipeline_status w"
  "events (snd (os_makedirs p w)) = events w"
  "fst (os_makedirs p w) \<noteq> Return"
  by (simp_all add: os_makedirs_def split: sum.split)

lemma os_remove_proj [simp]:
  "pipeline_status (snd (os_remove p w)) = pipeline_status w"
  "events (snd (os_remove p w)) = events w"
  "fst (os_remove p w) \<noteq> Return"
  by (simp_all add: os_remove_def split: option.split node.split)

lemma os_rename_proj [simp]:
  "pipeline_status (snd (os_rename p q w)) = pipeline_status w"
  "events (snd (os_rename p q w)) = events w"
  "fst (os_rename p q w) \<noteq> Return"
  by (simp_all add: os_rename_def split: option.split node.split)

lemma remove_and_rename_proj [simp]:
  "pipeline_status (snd (remove_and_rename p q w)) = pipeline_status w"
  "events (snd (remove_and_rename p q w)) = events w"
  "fst (remove_and_rename p q w) \<noteq> Return"
  by (simp_all add: remove_and_rename_def and_then_alt split: outcome.split)

lemma requests_get_call_proj [simp]:
  "snd (requests_get_call e u t w) = w"
  "fst (requests_get_call e u t w) \<noteq> Return"
  by (simp_all add: requests_get_call_def split: option.split)

lemmas shape_defs = follows_def extends_def new_events_def all_phases_def phase_of_name_def

subsection \<open>Composing pieces of a run\<close>

lemma list_all_phases: "list_all P all_phases = (\<forall>ph. P ph)"
proof -
  have "ph \<in> set all_phases" for ph
    by (cases ph) (simp_all add: all_phases_def)
  then show ?thesis by (auto simp: list_all_iff)
qed

lemma acts_append: "acts (xs @ ys) = acts xs @ acts ys"
  by (induction xs rule: acts.induct) (simp_all split: option.split)

lemma replays_append:
  "replays v xs v1 \<Longrightarrow> replays v1 ys v2 \<Longrightarrow> replays v (xs @ ys) v2"
proof (induction v xs v1 rule: replays.induct)
  case (1 v v')
  then have "v' = v" by (auto simp: list_all_phases)
  with 1 show ?case by simp
qed simp_all

lemma follows_refl: "follows w w"
  by (simp add: follows_def extends_def new_events_def list_all_phases)

lemma extends_iff: "extends w w' = (\<exists>evs. events w' = events w @ evs)"
  by (auto simp: extends_def new_events_def)

lemma new_events_append: "events w' = events w @ evs \<Longrightarrow> new_events w w' = evs"
  by (simp add: new_events_def)

lemma follows_trans:
  assumes "follows w w1" "follows w1 w2"
  shows "follows w w2"
    and "new_events w w2 = new_events w w1 @ new_events w1 w2"
proof -
  from assms obtain a b where e1: "events w1 = events w @ a" and e2: "events w2 = events w1 @ b"
    by (auto simp: follows_def extends_iff)
  then have e: "events w2 = events w @ a @ b" by simp
  have na: "new_events w w1 = a" and nb: "new_events w1 w2 = b"
    and nab: "new_events w w2 = a @ b"
    using e1 e2 e by (simp_all add: new_events_append)
  show "new_events w w2 = new_events w w1 @ new_events w1 w2"
    by (simp add: na nb nab)
  from assms have "replays (view (pipeline_status w)) a (view (pipeline_status w1))"
    "replays (view (pipeline_status w1)) b (view (pipeline_status w2))"
    by (simp_all add: follows_def na nb)
  then have "replays (view (pipeline_status w)) (a @ b) (view (pipeline_status w2))"
    by (rule replays_append)
  then show "follows w w2"
    using e by (simp add: follows_def extends_iff nab)
qed

lemma follows_acts:
  "follows w w1 \<Longrightarrow> follows w1 w2 \<Longrightarrow>
   acts (new_events w w2) = acts (new_events w w1) @ acts (new_events w1 w2)"
  by (simp add: follows_trans(2) acts_append)


subsection \<open>The two resets\<close>

lemma reset_phases_eq: "reset_phases ps = ps\<lparr>phases := (\<lambda>_. pending_state)\<rparr>"
proof -
  have "phases (reset_phases ps) ph = pending_state" for ph
    by (cases ph) (simp_all add: reset_phases_def all_phases_def)
  moreover have "current_phase (reset_phases ps) = current_phase ps"
    "model_ready (reset_phases ps) = model_ready ps" "logs (reset_phases ps) = logs ps"
    by (simp_all add: reset_phases_def all_phases_def)
  ultimately show ?thesis by (cases ps) (auto simp: fun_eq_iff)
qed

text \<open>
  C5. Both resets make every phase pending (empty message, no timestamp), empty the
  logs and clear \<open>model_ready\<close>, and either reset done twice is the reset done once. The
  reset of \<open>clear_data\<close> (lines 426--430) also sets \<open>current_phase\<close> to idle; the reset of
  \<open>upload_file\<close> (lines 306--309) has no such assignment and leaves \<open>current_phase\<close> as it
  was. So for a valid upload of \<open>sales.csv\<close> after a finished run the reset gives the
  current phase \<open>inference\<close>, not \<open>idle\<close>. When saving the file then raises, \<open>upload_file\<close>
  ends with the exception before any \<open>update_phase\<close>, nothing is broadcast, and the
  state is left with every phase pending and the current phase \<open>inference\<close>.
\<close>

theorem upload_reset_omits_current_phase:
  "(\<forall>ph. phases (reset_on_upload ps) ph = \<lparr>status = Pending, timestamp = None, message = []\<rparr>)
   \<and> logs (reset_on_upload ps) = []
   \<and> model_ready (reset_on_upload ps) = False
   \<and> current_phase (reset_on_upload ps) = current_phase ps
   \<and> reset_on_upload (reset_on_upload ps) = reset_on_upload ps
   \<and> (\<forall>ph. phases (reset_on_clear ps) ph = \<lparr>status = Pending, timestamp = None, message = []\<rparr>)
   \<and> logs (reset_on_clear ps) = []
   \<and> model_ready (reset_on_clear ps) = False
   \<and> current_phase (reset_on_clear ps) = ''idle''
   \<and> reset_on_clear (reset_on_clear ps) = reset_on_clear ps
   \<and> current_phase (reset_on_upload finished_status) = ''inference''
   \<and> (let r = upload_file good_env (Some (''sales.csv'', ''InvoiceNo,Quantity'')) finished_world
       in fst r = Raise (Exn OSError (''[Errno 21] Is a directory: '' @ [CHR 0x27]
                                         @ ''/app/data/raw/sales.csv'' @ [CHR 0x27]))
          \<and> pipeline_status (snd r) = reset_on_upload finished_status
          \<and> current_phase (pipeline_status (snd r)) = ''inference''
          \<and> map (\<lambda>ph. status (phases (pipeline_status (snd r)) ph)) all_phases
              = [Pending, Pending, Pending, Pending, Pending]
          \<and> events (snd r) = [])"
  by (simp add: reset_on_upload_def reset_on_clear_def reset_phases_eq pending_state_def
      finished_status_def finished_world_def upload_file_def good_env_def endswith_def
      and_then_def os_makedirs_def file_save_def os_path_join_def UPLOAD_FOLDER_def is_dir_def
      os_error_def repr_path_def all_phases_def Let_def)

subsection \<open>The predict proxy\<close>

text \<open>
  C8, as the code has it. For a request whose body is JSON: when the call to the
  inference worker raises a \<open>RequestException\<close> (the worker is unreachable), \<open>predict\<close>
  answers 503 with the body \<open>{'error': 'Servizio di inferenza non disponibile'}\<close>, which
  is not the generic failure (500 with the text of an exception), and logs the error;
  when the call raises another exception, \<open>predict\<close> answers with the generic failure;
  when the worker answers with JSON, \<open>predict\<close> answers 200 with that value written
  again by \<open>jsonify\<close>, its keys sorted. For a request whose body is not JSON, \<open>predict\<close>
  answers with the generic failure and does not call the worker. Whatever the request
  and the worker do, \<open>predict\<close> ends with a response: no exception leaves it.
\<close>

theorem predict_proxy:
  "(requests_post e ''http://ml_inference_service:5000/predict'' d 5 w = Inl x
      \<and> exn_class_of x = RequestException
    \<longrightarrow> predict e (Inr d) w =
         (Next (Response 503 (JObject [(''error'', JString ''Servizio di inferenza non disponibile'')])),
          add_log e (''Errore chiamata inferenza: '' @ str x) ErrorLevel w)
        \<and> (\<forall>msg. fst (predict e (Inr d) w)
                    \<noteq> Next (Response 500 (JObject [(''error'', JString msg)]))))
   \<and> (requests_post e ''http://ml_inference_service:5000/predict'' d 5 w = Inl x
      \<and> exn_class_of x \<noteq> RequestException
    \<longrightarrow> predict e (Inr d) w =
         (Next (Response 500 (JObject [(''error'', JString (str x))])), w))
   \<and> (requests_post e ''http://ml_inference_service:5000/predict'' d 5 w = Inr (Inr body)
      \<longrightarrow> predict e (Inr d) w = (Next (Response 200 (jsonify body)), w))
   \<and> predict e (Inl x') w = (Next (Response 500 (JObject [(''error'', JString (str x'))])), w)
   \<and> (\<exists>resp. fst (predict e request_json w) = Next resp)"
  by (auto simp: predict_def and_then_def catch_def catch_only_def split: sum.splits)

theorem predict_proxy_witness:
  "predict down_env (Inr (JObject [(''Quantity'', JNumber 2)])) example_world =
     (Next (Response 503 (JObject [(''error'', JString ''Servizio di inferenza non disponibile'')])),
      add_log down_env (''Errore chiamata inferenza: '' @ ''Connection refused'') ErrorLevel
        example_world)
   \<and> predict answering_env (Inr (JObject [(''Quantity'', JNumber 2)])) example_world =
     (Next (Response 200
        (JObject [(''predicted_value'', JFloat ''12.5''), (''status'', JString ''success'')])),
      example_world)"
  using predict_proxy [of down_env "JObject [(''Quantity'', JNumber 2)]" example_world
          "Exn RequestException ''Connection refused''"]
        predict_proxy [of answering_env "JObject [(''Quantity'', JNumber 2)]" example_world _
          "JObject [(''status'', JString ''success''), (''predicted_value'', JFloat ''12.5'')]"]
  by (simp add: down_env_def answering_env_def good_env_def)

text \<open>
  C8 as stated fails. With the worker unreachable, a call whose body is not JSON (here
  \<open>request.json\<close> raises) is answered with the generic failure 500, not with 503. And
  the answer of a reachable worker is not passed on as it came: its keys are sorted.
\<close>

theorem predict_generic_failure_while_down:
  "predict down_env (Inl (Exn OtherException ''415 Unsupported Media Type'')) example_world =
     (Next (Response 500 (JObject [(''error'', JString ''415 Unsupported Media Type'')])),
      example_world)
   \<and> fst (predict answering_env (Inr (JObject [(''Quantity'', JNumber 2)])) example_world)
       \<noteq> Next (Response 200
             (JObject [(''status'', JString ''success''),
                       (''predicted_value'', JFloat ''12.5'')]))"
  by (simp add: predict_def and_then_def catch_def catch_only_def down_env_def
      answering_env_def good_env_def)

subsection \<open>An exception that reaches the top of \<open>run_pipeline\<close>\<close>

text \<open>
  C4. The handler around the body of \<open>run_pipeline\<close> (lines 288--289) catches every
  exception, so none leaves the function, but it only logs: it makes no phase update.
  Here \<open>OnlineRetail.csv\<close> is uploaded while \<open>/app/data/processed\<close> is a regular file. The
  upload succeeds, the cleaning phase is set to running, \<open>os.makedirs\<close> raises, and the run
  ends with the exception in the log at level error, the cleaning phase still running
  and no phase in error.
\<close>

theorem pipeline_exception_only_logged:
  "(let w' = upload_and_run good_env (Some (''OnlineRetail.csv'', ''InvoiceNo,Quantity''))
               blocked_world
    in map (\<lambda>ph. status (phases (pipeline_status w') ph)) all_phases
         = [Completed, Pending, Running, Pending, Pending]
       \<and> map (\<lambda>l. (log_level l, log_message l)) (logs (pipeline_status w'))
         = [(Info, ''Fase upload: completed - File OnlineRetail.csv caricato con successo''),
            (Info, ''Fase cleaning: running - Pulizia e trasformazione dati...''),
            (ErrorLevel,
             ''Errore nella pipeline: [Errno 17] File exists: '' @ [CHR 0x27]
               @ ''/app/data/processed'' @ [CHR 0x27])])"
  by (simp add: upload_and_run_def upload_file_def run_pipeline_def run_pipeline_body_def
      phase_conversion_def rename_csv_def phase_cleaning_def
      and_then_def catch_def os_makedirs_def file_save_def
      update_phase_def add_log_def emit_status_update_def
      blocked_world_def blocked_fs_def good_env_def initial_status_def pending_state_def
      reset_on_upload_def reset_phases_def all_phases_def
      os_path_join_def UPLOAD_FOLDER_def get_data_path_def os_path_exists_def is_dir_def
      os_error_def repr_path_def endswith_def Let_def)

subsection \<open>The ready flag and the inference phase\<close>

text \<open>
  C2. When the container of the inference service has started (return code 0) and the
  service answers the probe, the inference phase ends like this (lines 268--271):
  \<open>update_phase('inference', 'completed', ...)\<close> sets the phase to completed and broadcasts
  the status, and only then \<open>model_ready\<close> is set, with no broadcast after it. So from a
  state in which the flag is false, as it is after the reset of an upload, the last
  status the clients receive shows the inference phase completed and the flag false. At
  the end the flag is true and the phase completed.
\<close>

theorem completed_broadcast_before_ready:
  "\<not> model_ready (pipeline_status w) \<Longrightarrow> returncode result = 0 \<Longrightarrow>
   requests_get e ''http://ml_inference_service:5000/predict'' 10 w = None \<Longrightarrow>
   (let w' = snd (probe_service e result w);
        s = last (snapshots (new_events w w'))
    in status (phases s Inference) = Completed \<and> \<not> model_ready s
       \<and> status (phases (pipeline_status w') Inference) = Completed
       \<and> model_ready (pipeline_status w'))"
  by (simp add: probe_service_def requests_get_call_def time_sleep_def set_model_ready_def
      and_then_def catch_only_def update_phase_def add_log_def
      emit_status_update_def new_events_def Let_def)

theorem completed_broadcast_before_ready_witness:
  "(let w' = snd (probe_service good_env \<lparr>returncode = 0, stdout = ''done'', stderr = []\<rparr>
                   example_world);
        s = last (snapshots (new_events example_world w'))
    in status (phases s Inference) = Completed \<and> \<not> model_ready s
       \<and> status (phases (pipeline_status w') Inference) = Completed
       \<and> model_ready (pipeline_status w'))"
  using completed_broadcast_before_ready
          [of example_world "\<lparr>returncode = 0, stdout = ''done'', stderr = []\<rparr>" good_env]
  by (simp add: example_world_def initial_status_def good_env_def)

subsection \<open>What \<open>clear_data\<close> removes\<close>

lemma lookup_File [simp]: "lookup (File c) p = (if p = [] then Some (File c) else None)"
  by (cases p) simp_all








subsection \<open>The phases, one by one\<close>

lemma phase_cleaning_acts:
  "follows w (snd (phase_cleaning e f w))
   \<and> model_ready (pipeline_status (snd (phase_cleaning e f w))) = model_ready (pipeline_status w)
   \<and> phase_acts Cleaning (cleaning_cmd (get_host_data_path e) f) 300
        (acts (new_events w (snd (phase_cleaning e f w))))
        (fst (phase_cleaning e f w) = Next ())"
  unfolding phase_cleaning_def flow
  by (simp add: shape_defs os_makedirs_def split: sum.split outcome.split)

lemma phase_training_acts:
  "follows w (snd (phase_training e w))
   \<and> model_ready (pipeline_status (snd (phase_training e w))) = model_ready (pipeline_status w)
   \<and> phase_acts Training (training_cmd (get_host_data_path e)) 600
        (acts (new_events w (snd (phase_training e w))))
        (fst (phase_training e w) = Next ())"
  unfolding phase_training_def flow
  by (simp add: shape_defs os_makedirs_def split: sum.split outcome.split)

lemma run_converter_acts:
  "follows w (snd (run_converter e w))
   \<and> model_ready (pipeline_status (snd (run_converter e w))) = model_ready (pipeline_status w)
   \<and> verdict_acts Conversion (converter_cmd (get_host_data_path e)) 300
        (acts (new_events w (snd (run_converter e w))))
        (fst (run_converter e w) = Next ''OnlineRetail.csv'')
   \<and> (fst (run_converter e w) = Next ''OnlineRetail.csv'' \<or> fst (run_converter e w) = Return)"
  unfolding run_converter_def flow
  by (simp add: shape_defs split: sum.split outcome.split)

lemma rename_excel_acts:
  "follows w (snd (rename_excel e f w))
   \<and> model_ready (pipeline_status (snd (rename_excel e f w))) = model_ready (pipeline_status w)
   \<and> (case fst (rename_excel e f w) of
         Next f' \<Rightarrow> acts (new_events w (snd (rename_excel e f w))) = []
       | Return \<Rightarrow> failed_at Conversion (acts (new_events w (snd (rename_excel e f w))))
       | Raise x \<Rightarrow> False)"
  unfolding rename_excel_def flow
  by (simp add: shape_defs list_all_phases split: outcome.split)

lemma rename_csv_acts:
  "follows w (snd (rename_csv e f w))
   \<and> model_ready (pipeline_status (snd (rename_csv e f w))) = model_ready (pipeline_status w)
   \<and> acts (new_events w (snd (rename_csv e f w))) = []
   \<and> (fst (rename_csv e f w) = Next f \<or> fst (rename_csv e f w) = Next ''OnlineRetail.csv'')"
  unfolding rename_csv_def flow
  by (simp add: shape_defs list_all_phases split: outcome.split)

lemma launch_service_acts:
  "follows w (snd (launch_service e w))
   \<and> model_ready (pipeline_status (snd (launch_service e w))) = model_ready (pipeline_status w)
   \<and> only_service_cmds (acts (new_events w (snd (launch_service e w))))
   \<and> fst (launch_service e w) \<noteq> Return"
  unfolding launch_service_def flow
  by (simp add: shape_defs list_all_phases runs_stage_def network_cmd_def inference_cmd_def
      split: sum.split outcome.split)

lemma probe_service_acts:
  "follows w (snd (probe_service e result w))
   \<and> service_acts (acts (new_events w (snd (probe_service e result w))))
   \<and> (case fst (probe_service e result w) of
         Next u \<Rightarrow> acts (new_events w (snd (probe_service e result w))) \<noteq> []
       | Return \<Rightarrow> False
       | Raise x \<Rightarrow> only_service_cmds (acts (new_events w (snd (probe_service e result w))))
                    \<and> model_ready (pipeline_status (snd (probe_service e result w)))
                        = model_ready (pipeline_status w))"
  unfolding probe_service_def flow time_sleep_def
  by (simp add: shape_defs list_all_phases runs_stage_def ps_cmd_def
      split: sum.split outcome.split)

lemma phase_of_name_phase_name [simp]: "phase_of_name (phase_name p) = Some p"
  by (cases p) (simp_all add: phase_of_name_def all_phases_def)

lemma update_phase_follows:
  "follows w (update_phase e p s m w)"
  "acts (new_events w (update_phase e p s m w)) = [Upd p s m]"
  by (simp_all add: follows_def extends_def new_events_def list_all_phases)

lemma subprocess_run_follows:
  "follows w (snd (subprocess_run e c t w))"
  "acts (new_events w (snd (subprocess_run e c t w))) =
     [Cmd c t (fst (subprocess e c t w)) (snd (subprocess e c t w))]"
  by (simp_all add: follows_def extends_def new_events_def list_all_phases)

lemma and_then_acts:
  assumes "follows w (snd m)"
      and "\<And>a. fst m = Next a \<Longrightarrow> follows (snd m) (snd (k a (snd m)))"
  shows "follows w (snd (and_then m k))"
    and "acts (new_events w (snd (and_then m k))) =
           acts (new_events w (snd m)) @
           (case fst m of Next a \<Rightarrow> acts (new_events (snd m) (snd (k a (snd m))))
            | Return \<Rightarrow> [] | Raise x \<Rightarrow> [])"
proof -
  show "follows w (snd (and_then m k))"
  proof (cases "fst m")
    case (Next a)
    then have "follows (snd m) (snd (k a (snd m)))" by (rule assms(2))
    with assms(1) have "follows w (snd (k a (snd m)))" by (rule follows_trans(1))
    with Next show ?thesis by (simp add: and_then_alt)
  qed (simp_all add: and_then_alt assms(1))
  show "acts (new_events w (snd (and_then m k))) =
           acts (new_events w (snd m)) @
           (case fst m of Next a \<Rightarrow> acts (new_events (snd m) (snd (k a (snd m))))
            | Return \<Rightarrow> [] | Raise x \<Rightarrow> [])"
  proof (cases "fst m")
    case (Next a)
    then have "follows (snd m) (snd (k a (snd m)))" by (rule assms(2))
    with assms(1) have "acts (new_events w (snd (k a (snd m)))) =
        acts (new_events w (snd m)) @ acts (new_events (snd m) (snd (k a (snd m))))"
      by (rule follows_acts)
    with Next show ?thesis by (simp add: and_then_alt)
  qed (simp_all add: and_then_alt)
qed

lemma catch_acts:
  assumes "follows w (snd m)"
      and "\<And>x. fst m = Raise x \<Longrightarrow> follows (snd m) (snd (h x (snd m)))"
  shows "follows w (snd (catch m h))"
    and "acts (new_events w (snd (catch m h))) =
           acts (new_events w (snd m)) @
           (case fst m of Raise x \<Rightarrow> acts (new_events (snd m) (snd (h x (snd m))))
            | Return \<Rightarrow> [] | Next a \<Rightarrow> [])"
proof -
  show "follows w (snd (catch m h))"
  proof (cases "fst m")
    case (Raise x)
    then have "follows (snd m) (snd (h x (snd m)))" by (rule assms(2))
    with assms(1) have "follows w (snd (h x (snd m)))" by (rule follows_trans(1))
    with Raise show ?thesis by (simp add: catch_alt)
  qed (simp_all add: catch_alt assms(1))
  show "acts (new_events w (snd (catch m h))) =
           acts (new_events w (snd m)) @
           (case fst m of Raise x \<Rightarrow> acts (new_events (snd m) (snd (h x (snd m))))
            | Return \<Rightarrow> [] | Next a \<Rightarrow> [])"
  proof (cases "fst m")
    case (Raise x)
    then have "follows (snd m) (snd (h x (snd m)))" by (rule assms(2))
    with assms(1) have "acts (new_events w (snd (h x (snd m)))) =
        acts (new_events w (snd m)) @ acts (new_events (snd m) (snd (h x (snd m))))"
      by (rule follows_acts)
    with Raise show ?thesis by (simp add: catch_alt)
  qed (simp_all add: catch_alt)
qed

subsection \<open>The inference phase and the whole run\<close>

lemma service_acts_append:
  "only_service_cmds as \<Longrightarrow> service_acts bs \<Longrightarrow> service_acts (as @ bs)"
  by (induction as rule: only_service_cmds.induct) simp_all

lemma only_service_cmds_append:
  "only_service_cmds as \<Longrightarrow> only_service_cmds bs \<Longrightarrow> only_service_cmds (as @ bs)"
  by (induction as rule: only_service_cmds.induct) simp_all

lemma only_service_cmds_service_acts: "only_service_cmds as \<Longrightarrow> service_acts as"
  using service_acts_append [of as "[]"] by simp

lemma start_service_acts:
  "follows w (snd (start_service e w))
   \<and> service_acts (acts (new_events w (snd (start_service e w))))
   \<and> fst (start_service e w) = Next ()"
proof -
  define m where "m = start_service e w"
  note m_def = m_def [unfolded start_service_def]
  let ?l = "launch_service e w"
  let ?b = "and_then ?l (\<lambda>result w4. probe_service e result w4)"
  let ?h = "\<lambda>x w'. (Next () :: unit outcome,
                   update_phase e Inference Error (''Errore avvio inferenza: '' @ str x) w')"
  have l: "follows w (snd ?l)" "only_service_cmds (acts (new_events w (snd ?l)))"
    "fst ?l \<noteq> Return"
    using launch_service_acts [of w e] by simp_all
  have p: "follows w0 (snd (probe_service e r w0))"
    "service_acts (acts (new_events w0 (snd (probe_service e r w0))))" for r w0
    using probe_service_acts [of w0 e r] by simp_all
  have fb: "follows w (snd ?b)"
    by (rule and_then_acts(1) [OF l(1)]) (rule p(1))
  have ab: "acts (new_events w (snd ?b)) = acts (new_events w (snd ?l)) @
       (case fst ?l of Next a \<Rightarrow> acts (new_events (snd ?l) (snd (probe_service e a (snd ?l))))
        | Return \<Rightarrow> [] | Raise x \<Rightarrow> [])"
    by (rule and_then_acts(2) [OF l(1)]) (rule p(1))
  have fh: "follows (snd ?b) (snd (?h x (snd ?b)))" for x
    by (simp add: update_phase_follows)
  have fm: "follows w (snd m)"
    unfolding m_def by (rule catch_acts(1) [OF fb]) (rule fh)
  have am: "acts (new_events w (snd m)) = acts (new_events w (snd ?b)) @
       (case fst ?b of Raise x \<Rightarrow> acts (new_events (snd ?b) (snd (?h x (snd ?b))))
        | Return \<Rightarrow> [] | Next a \<Rightarrow> [])"
    unfolding m_def by (rule catch_acts(2) [OF fb]) (rule fh)
  have res: "fst m = Next ()"
  proof (cases "fst ?l")
    case (Next r)
    then show ?thesis
      using probe_service_acts [of "snd ?l" e r]
      by (cases "fst (probe_service e r (snd ?l))")
         (simp_all add: m_def catch_alt and_then_alt)
  next
    case Return
    with l(3) show ?thesis by simp
  next
    case (Raise x)
    then show ?thesis by (simp add: m_def catch_alt and_then_alt)
  qed
  have shape: "service_acts (acts (new_events w (snd m)))"
  proof (cases "fst ?l")
    case (Next r)
    let ?pr = "probe_service e r (snd ?l)"
    from Next have b: "?b = ?pr" by (simp add: and_then_alt)
    show ?thesis
    proof (cases "fst ?pr")
      case (Next u)
      with b am ab \<open>fst ?l = Next r\<close> l(2) p(2) [of "snd ?l" r] show ?thesis
        by (simp add: service_acts_append)
    next
      case Return
      with probe_service_acts [of "snd ?l" e r] show ?thesis by simp
    next
      case (Raise x)
      with probe_service_acts [of "snd ?l" e r]
      have "only_service_cmds (acts (new_events (snd ?l) (snd ?pr)))" by simp
      with l(2) have "only_service_cmds (acts (new_events w (snd ?l))
          @ acts (new_events (snd ?l) (snd ?pr)))"
        by (rule only_service_cmds_append)
      then have "service_acts ((acts (new_events w (snd ?l))
          @ acts (new_events (snd ?l) (snd ?pr)))
          @ [Upd Inference Error (''Errore avvio inferenza: '' @ str x)])"
        by (rule service_acts_append) simp
      then show ?thesis
        using Raise b am ab \<open>fst ?l = Next r\<close>
        by (simp add: update_phase_follows)
    qed
  next
    case Return
    with l(3) show ?thesis by simp
  next
    case (Raise x)
    with am ab l(2) show ?thesis
      by (simp add: and_then_alt update_phase_follows service_acts_append)
  qed
  from fm shape res show ?thesis
    by (simp add: start_service_def m_def)
qed

lemma phase_inference_acts:
  "follows w (snd (phase_inference e w))
   \<and> inference_acts (acts (new_events w (snd (phase_inference e w))))
   \<and> fst (phase_inference e w) \<noteq> Return"
proof -
  let ?stop = "[''docker'', ''stop'', ''ml_inference_service'']"
  let ?rm = "[''docker'', ''rm'', ''ml_inference_service'']"
  define k3 where "k3 = (\<lambda>(u::completed_process) w3. start_service e w3)"
  define k2 where "k2 = (\<lambda>(u::completed_process) w2. and_then (subprocess_run e ?rm None w2) k3)"
  define w1 where "w1 = update_phase e Inference Running ''Avvio servizio di inferenza...'' w"
  have eq: "phase_inference e w = and_then (subprocess_run e ?stop None w1) k2"
    by (simp add: phase_inference_def k2_def k3_def w1_def)
  have nostage: "\<not> runs_stage ph ?stop" "\<not> runs_stage ph ?rm" for ph
    by (cases ph; simp add: runs_stage_def)+
  have s3: "follows w3 (snd (k3 a w3))" "service_acts (acts (new_events w3 (snd (k3 a w3))))"
    "fst (k3 a w3) = Next ()" for a w3
    using start_service_acts [of w3 e] by (simp_all add: k3_def)
  have s2: "follows w2 (snd (k2 a w2)) \<and> service_acts (acts (new_events w2 (snd (k2 a w2))))
    \<and> fst (k2 a w2) \<noteq> Return" for a w2
  proof -
    let ?m = "subprocess_run e ?rm None w2"
    have f: "follows w2 (snd ?m)" by (rule subprocess_run_follows)
    have "follows w2 (snd (and_then ?m k3))"
      by (rule and_then_acts(1) [OF f]) (rule s3(1))
    moreover have "acts (new_events w2 (snd (and_then ?m k3))) = acts (new_events w2 (snd ?m)) @
       (case fst ?m of Next a \<Rightarrow> acts (new_events (snd ?m) (snd (k3 a (snd ?m))))
        | Return \<Rightarrow> [] | Raise x \<Rightarrow> [])"
      by (rule and_then_acts(2) [OF f]) (rule s3(1))
    then have "service_acts (acts (new_events w2 (snd (and_then ?m k3))))"
      using s3(2) nostage by (simp add: subprocess_run_follows split: outcome.split)
    moreover have "fst (and_then ?m k3) \<noteq> Return"
      using s3(3) by (simp add: and_then_alt split: outcome.split sum.split)
    ultimately show ?thesis by (simp add: k2_def)
  qed
  let ?m = "subprocess_run e ?stop None w1"
  have f1: "follows w1 (snd ?m)" by (rule subprocess_run_follows)
  have fa: "follows w1 (snd (and_then ?m k2))"
    by (rule and_then_acts(1) [OF f1]) (simp add: s2)
  have "acts (new_events w1 (snd (and_then ?m k2))) = acts (new_events w1 (snd ?m)) @
       (case fst ?m of Next a \<Rightarrow> acts (new_events (snd ?m) (snd (k2 a (snd ?m))))
        | Return \<Rightarrow> [] | Raise x \<Rightarrow> [])"
    by (rule and_then_acts(2) [OF f1]) (simp add: s2)
  then have sa: "service_acts (acts (new_events w1 (snd (and_then ?m k2))))"
    using s2 nostage by (simp add: subprocess_run_follows split: outcome.split)
  have nr: "fst (and_then ?m k2) \<noteq> Return"
    using s2 by (simp add: and_then_alt split: outcome.split sum.split)
  have f0: "follows w w1" by (simp add: w1_def update_phase_follows)
  from f0 fa have "follows w (snd (and_then ?m k2))" by (rule follows_trans(1))
  moreover from f0 fa have "acts (new_events w (snd (and_then ?m k2))) =
      acts (new_events w w1) @ acts (new_events w1 (snd (and_then ?m k2)))"
    by (rule follows_acts)
  then have "inference_acts (acts (new_events w (snd (and_then ?m k2))))"
    using sa by (simp add: w1_def update_phase_follows)
  ultimately show ?thesis using nr by (simp add: eq)
qed

lemma convert_excel_acts:
  "follows w (snd (convert_excel e f w))
   \<and> phase_acts Conversion (converter_cmd (get_host_data_path e)) 300
        (acts (new_events w (snd (convert_excel e f w))))
        (fst (convert_excel e f w) = Next ''OnlineRetail.csv'')
   \<and> (fst (convert_excel e f w) = Next ''OnlineRetail.csv''
        \<or> fst (convert_excel e f w) = Return)"
proof -
  define w1 where "w1 = update_phase e Conversion Running ''Conversione Excel in CSV...'' w"
  have f0: "follows w w1" and a0: "acts (new_events w w1)
      = [Upd Conversion Running ''Conversione Excel in CSV...'']"
    by (simp_all add: w1_def update_phase_follows)
  show ?thesis
  proof (cases "os_path_exists (fs w1) (os_path_join get_data_path [''raw'', f])")
    case False
    let ?w2 = "update_phase e Conversion Error (''File '' @ f @ '' non trovato'') w1"
    from False have eq: "convert_excel e f w = (Return, ?w2)"
      by (simp add: convert_excel_def w1_def Let_def)
    have f1: "follows w1 ?w2" by (rule update_phase_follows)
    from f0 f1 have "follows w ?w2" by (rule follows_trans(1))
    moreover from f0 f1 have "acts (new_events w ?w2)
        = acts (new_events w w1) @ acts (new_events w1 ?w2)"
      by (rule follows_acts)
    ultimately show ?thesis by (simp add: eq a0 update_phase_follows)
  next
    case True
    let ?m = "rename_excel e f w1"
    let ?k = "\<lambda>(name::string) w2. run_converter e w2"
    from True have eq: "convert_excel e f w = and_then ?m ?k"
      by (simp add: convert_excel_def w1_def Let_def)
    have r: "follows w1 (snd ?m)"
      "case fst ?m of Next f' \<Rightarrow> acts (new_events w1 (snd ?m)) = []
       | Return \<Rightarrow> failed_at Conversion (acts (new_events w1 (snd ?m)))
       | Raise x \<Rightarrow> False"
      using rename_excel_acts [of w1 e f] by simp_all
    have c: "follows w2 (snd (run_converter e w2))"
      "verdict_acts Conversion (converter_cmd (get_host_data_path e)) 300
        (acts (new_events w2 (snd (run_converter e w2))))
        (fst (run_converter e w2) = Next ''OnlineRetail.csv'')"
      "fst (run_converter e w2) = Next ''OnlineRetail.csv'' \<or> fst (run_converter e w2) = Return"
      for w2
      using run_converter_acts [of w2 e] by simp_all
    have f1: "follows w1 (snd (and_then ?m ?k))"
      by (rule and_then_acts(1) [OF r(1)]) (rule c(1))
    have a1: "acts (new_events w1 (snd (and_then ?m ?k))) = acts (new_events w1 (snd ?m)) @
       (case fst ?m of Next a \<Rightarrow> acts (new_events (snd ?m) (snd (run_converter e (snd ?m))))
        | Return \<Rightarrow> [] | Raise x \<Rightarrow> [])"
      by (rule and_then_acts(2) [OF r(1)]) (rule c(1))
    from f0 f1 have fw: "follows w (snd (and_then ?m ?k))" by (rule follows_trans(1))
    from f0 f1 have aw: "acts (new_events w (snd (and_then ?m ?k)))
        = acts (new_events w w1) @ acts (new_events w1 (snd (and_then ?m ?k)))"
      by (rule follows_acts)
    show ?thesis
    proof (cases "fst ?m")
      case (Next f')
      with r(2) a1 aw a0 c(2) [of "snd ?m"] c(3) [of "snd ?m"] fw show ?thesis
        by (simp add: eq and_then_alt)
    next
      case Return
      with r(2) a1 aw a0 fw show ?thesis
        by (simp add: eq and_then_alt)
    next
      case (Raise x)
      with r(2) show ?thesis by simp
    qed
  qed
qed

lemma phase_conversion_acts:
  "follows w (snd (phase_conversion e f w))
   \<and> (if endswith f ''.xlsx''
       then phase_acts Conversion (converter_cmd (get_host_data_path e)) 300
              (acts (new_events w (snd (phase_conversion e f w))))
              (fst (phase_conversion e f w) = Next ''OnlineRetail.csv'')
            \<and> (fst (phase_conversion e f w) = Next ''OnlineRetail.csv''
                 \<or> fst (phase_conversion e f w) = Return)
       else acts (new_events w (snd (phase_conversion e f w))) = []
            \<and> (fst (phase_conversion e f w) = Next f
                 \<or> fst (phase_conversion e f w) = Next ''OnlineRetail.csv''))"
  using convert_excel_acts [of w e f] rename_csv_acts [of w e f]
  by (simp add: phase_conversion_def)

lemma run_pipeline_body_shape:
  "\<exists>a1 a2 a3 a4 c1 c2 c3 f'.
     acts (new_events w (snd (run_pipeline_body e f w))) = a1 @ a2 @ a3 @ a4
     \<and> (if endswith f ''.xlsx''
         then phase_acts Conversion (converter_cmd (get_host_data_path e)) 300 a1 c1
              \<and> f' = ''OnlineRetail.csv''
         else a1 = [] \<and> c1 \<and> Next f' = fst (rename_csv e f w))
     \<and> (if c1 then phase_acts Cleaning (cleaning_cmd (get_host_data_path e) f') 300 a2 c2
         else a2 = [] \<and> \<not> c2)
     \<and> (if c2 then phase_acts Training (training_cmd (get_host_data_path e)) 600 a3 c3
         else a3 = [] \<and> \<not> c3)
     \<and> (if c3 then inference_acts a4 else a4 = [])
     \<and> follows w (snd (run_pipeline_body e f w))"
proof -
  define h where "h = get_host_data_path e"
  define k3 where "k3 = (\<lambda>(u::unit) w3. phase_inference e w3)"
  define k2 where "k2 = (\<lambda>(u::unit) w2. and_then (phase_training e w2) k3)"
  define k1 where "k1 = (\<lambda>name w1. and_then (phase_cleaning e name w1) k2)"
  have body: "run_pipeline_body e f w = and_then (phase_conversion e f w) k1"
    by (simp add: run_pipeline_body_def k1_def k2_def k3_def)
  have s3: "follows w3 (snd (k3 u w3))" "inference_acts (acts (new_events w3 (snd (k3 u w3))))"
    for u w3
    using phase_inference_acts [of w3 e] by (simp_all add: k3_def)
  have s2: "\<exists>a3 a4 c3. acts (new_events w2 (snd (k2 u w2))) = a3 @ a4
       \<and> phase_acts Training (training_cmd h) 600 a3 c3
       \<and> (if c3 then inference_acts a4 else a4 = [])
       \<and> follows w2 (snd (k2 u w2))" for u w2
  proof -
    let ?m = "phase_training e w2"
    have t: "follows w2 (snd ?m)"
      "phase_acts Training (training_cmd h) 600 (acts (new_events w2 (snd ?m))) (fst ?m = Next ())"
      using phase_training_acts [of w2 e] by (simp_all add: h_def)
    have f: "follows w2 (snd (and_then ?m k3))"
      by (rule and_then_acts(1) [OF t(1)]) (rule s3(1))
    have a: "acts (new_events w2 (snd (and_then ?m k3))) = acts (new_events w2 (snd ?m)) @
       (case fst ?m of Next a \<Rightarrow> acts (new_events (snd ?m) (snd (k3 a (snd ?m))))
        | Return \<Rightarrow> [] | Raise x \<Rightarrow> [])"
      by (rule and_then_acts(2) [OF t(1)]) (rule s3(1))
    show ?thesis
      apply (rule exI [of _ "acts (new_events w2 (snd ?m))"])
      apply (rule exI [of _ "case fst ?m of Next a \<Rightarrow> acts (new_events (snd ?m) (snd (k3 a (snd ?m))))
        | Return \<Rightarrow> [] | Raise x \<Rightarrow> []"])
      apply (rule exI [of _ "fst ?m = Next ()"])
      using t f a s3(2) by (auto simp: k2_def split: outcome.split)
  qed
  have s2f: "follows w2 (snd (k2 u w2))" for u w2 using s2 [of w2 u] by blast
  have s1: "\<exists>a2 a3 a4 c2 c3. acts (new_events w1 (snd (k1 name w1))) = a2 @ a3 @ a4
       \<and> phase_acts Cleaning (cleaning_cmd h name) 300 a2 c2
       \<and> (if c2 then phase_acts Training (training_cmd h) 600 a3 c3 else a3 = [] \<and> \<not> c3)
       \<and> (if c3 then inference_acts a4 else a4 = [])
       \<and> follows w1 (snd (k1 name w1))" for name w1
  proof -
    let ?m = "phase_cleaning e name w1"
    have t: "follows w1 (snd ?m)"
      "phase_acts Cleaning (cleaning_cmd h name) 300 (acts (new_events w1 (snd ?m)))
         (fst ?m = Next ())"
      using phase_cleaning_acts [of w1 e name] by (simp_all add: h_def)
    have f: "follows w1 (snd (and_then ?m k2))"
      by (rule and_then_acts(1) [OF t(1)]) (rule s2f)
    have a: "acts (new_events w1 (snd (and_then ?m k2))) = acts (new_events w1 (snd ?m)) @
       (case fst ?m of Next a \<Rightarrow> acts (new_events (snd ?m) (snd (k2 a (snd ?m))))
        | Return \<Rightarrow> [] | Raise x \<Rightarrow> [])"
      by (rule and_then_acts(2) [OF t(1)]) (rule s2f)
    show ?thesis
    proof (cases "fst ?m = Next ()")
      case True
      from s2 [of "snd ?m" "()"] obtain a3 a4 c3 where s:
        "acts (new_events (snd ?m) (snd (k2 () (snd ?m)))) = a3 @ a4"
        "phase_acts Training (training_cmd h) 600 a3 c3"
        "if c3 then inference_acts a4 else a4 = []" by blast
      show ?thesis
        apply (rule exI [of _ "acts (new_events w1 (snd ?m))"])
        apply (rule exI [of _ a3])
        apply (rule exI [of _ a4])
        apply (rule exI [of _ True])
        apply (rule exI [of _ c3])
        using True t f a s by (simp add: k1_def)
    next
      case False
      show ?thesis
        apply (rule exI [of _ "acts (new_events w1 (snd ?m))"])
        apply (rule exI [of _ "[]"])
        apply (rule exI [of _ "[]"])
        apply (rule exI [of _ False])
        apply (rule exI [of _ False])
        using False t f a by (cases "fst ?m") (simp_all add: k1_def)
    qed
  qed
  have s1f: "follows w1 (snd (k1 name w1))" for name w1 using s1 [of w1 name] by blast
  let ?m = "phase_conversion e f w"
  have t: "follows w (snd ?m)"
    "if endswith f ''.xlsx''
     then phase_acts Conversion (converter_cmd h) 300 (acts (new_events w (snd ?m)))
            (fst ?m = Next ''OnlineRetail.csv'')
          \<and> (fst ?m = Next ''OnlineRetail.csv'' \<or> fst ?m = Return)
     else acts (new_events w (snd ?m)) = []
          \<and> (fst ?m = Next f \<or> fst ?m = Next ''OnlineRetail.csv'')"
    using phase_conversion_acts [of w e f] by (simp_all add: h_def)
  have fb: "follows w (snd (and_then ?m k1))"
    by (rule and_then_acts(1) [OF t(1)]) (rule s1f)
  have ab: "acts (new_events w (snd (and_then ?m k1))) = acts (new_events w (snd ?m)) @
       (case fst ?m of Next a \<Rightarrow> acts (new_events (snd ?m) (snd (k1 a (snd ?m))))
        | Return \<Rightarrow> [] | Raise x \<Rightarrow> [])"
    by (rule and_then_acts(2) [OF t(1)]) (rule s1f)
  show ?thesis
  proof (cases "fst ?m")
    case (Next name)
    from s1 [of "snd ?m" name] obtain a2 a3 a4 c2 c3 where s:
      "acts (new_events (snd ?m) (snd (k1 name (snd ?m)))) = a2 @ a3 @ a4"
      "phase_acts Cleaning (cleaning_cmd h name) 300 a2 c2"
      "if c2 then phase_acts Training (training_cmd h) 600 a3 c3 else a3 = [] \<and> \<not> c3"
      "if c3 then inference_acts a4 else a4 = []" by blast
    have csv: "\<not> endswith f ''.xlsx'' \<Longrightarrow> Next name = fst (rename_csv e f w)"
      using Next by (simp add: phase_conversion_def)
    show ?thesis
        apply (rule exI [of _ "acts (new_events w (snd ?m))"])
        apply (rule exI [of _ a2])
        apply (rule exI [of _ a3])
        apply (rule exI [of _ a4])
        apply (rule exI [of _ True])
        apply (rule exI [of _ c2])
        apply (rule exI [of _ c3])
        apply (rule exI [of _ name])
      using Next t(2) s fb ab csv by (auto simp: body h_def split: if_splits)
  next
    case Return
    show ?thesis
        apply (rule exI [of _ "acts (new_events w (snd ?m))"])
        apply (rule exI [of _ "[]"])
        apply (rule exI [of _ "[]"])
        apply (rule exI [of _ "[]"])
        apply (rule exI [of _ False])
        apply (rule exI [of _ False])
        apply (rule exI [of _ False])
        apply (rule exI [of _ "''OnlineRetail.csv''"])
      using Return t(2) fb ab by (auto simp: body h_def split: if_splits)
  next
    case (Raise x)
    with t(2) show ?thesis by (auto split: if_splits)
  qed
qed

lemma run_pipeline_acts:
  "acts (new_events w (snd (run_pipeline e f w)))
     = acts (new_events w (snd (run_pipeline_body e f w)))
   \<and> follows w (snd (run_pipeline e f w))
   \<and> view (pipeline_status (snd (run_pipeline e f w)))
       = view (pipeline_status (snd (run_pipeline_body e f w)))
   \<and> fst (run_pipeline e f w) = Next ()"
proof -
  let ?b = "run_pipeline_body e f w"
  have fb: "follows w (snd ?b)" using run_pipeline_body_shape [of w e f] by blast
  show ?thesis
  proof (cases "fst ?b")
    case (Raise x)
    let ?w' = "add_log e (''Errore nella pipeline: '' @ str x) ErrorLevel (snd ?b)"
    have fl: "follows (snd ?b) ?w'"
      by (simp add: follows_def extends_def new_events_def list_all_phases)
    have al: "acts (new_events (snd ?b) ?w') = []"
      by (simp add: new_events_def)
    from Raise have eq: "run_pipeline e f w = (Next (), ?w')"
      by (cases ?b) (simp add: run_pipeline_def catch_def)
    from fb fl have "follows w ?w'" by (rule follows_trans(1))
    moreover from fb fl have "acts (new_events w ?w')
        = acts (new_events w (snd ?b)) @ acts (new_events (snd ?b) ?w')"
      by (rule follows_acts)
    ultimately show ?thesis using al by (simp add: eq)
  next
    case (Next u)
    then have "run_pipeline e f w = (Next (), snd ?b)"
      by (cases ?b) (simp add: run_pipeline_def catch_def)
    with fb show ?thesis by simp
  next
    case Return
    then have "run_pipeline e f w = (Next (), snd ?b)"
      by (cases ?b) (simp add: run_pipeline_def catch_def)
    with fb show ?thesis by simp
  qed
qed

subsection \<open>The order of the acts of a run\<close>

lemma advance_append:
  "advance st (as @ bs) = (case advance st as of None \<Rightarrow> None | Some st' \<Rightarrow> advance st' bs)"
  by (induction st as rule: advance.induct) auto

lemma stage_verdict_status:
  "fst (stage_verdict ph r root) = Completed \<or> fst (stage_verdict ph r root) = Error"
  by (cases r) simp_all

lemma phase_acts_advance:
  assumes "phase_acts ph cmd t as c" "phase_index p < phase_index ph"
  shows "\<exists>s. advance (p, Completed) as = Some (ph, s) \<and> (c \<longrightarrow> s = Completed)"
proof -
  from assms(1) obtain m rest where as: "as = Upd ph Running m # rest"
    and rest: "(rest = [] \<and> \<not> c) \<or> (failed_at ph rest \<and> \<not> c) \<or> verdict_acts ph cmd t rest c"
    by (cases "(ph, cmd, t, as, c)" rule: phase_acts.cases) auto
  from rest show ?thesis
  proof (elim disjE)
    assume "rest = [] \<and> \<not> c"
    with as assms(2) show ?thesis by simp
  next
    assume "failed_at ph rest \<and> \<not> c"
    then obtain m' where "rest = [Upd ph Error m']" "\<not> c"
      by (cases "(ph, rest)" rule: failed_at.cases) auto
    with as assms(2) show ?thesis by simp
  next
    assume "verdict_acts ph cmd t rest c"
    then obtain r root s m' where v: "rest = [Cmd cmd (Some t) r root, Upd ph s m']"
      "(s, m') = stage_verdict ph r root" "c = (s = Completed)"
      by (cases "(ph, cmd, t, rest, c)" rule: verdict_acts.cases) auto
    from v(2) stage_verdict_status [of ph r root] have "s = Completed \<or> s = Error"
      by (metis fst_conv)
    with as v assms(2) show ?thesis by auto
  qed
qed

lemma service_acts_advance:
  "service_acts as \<Longrightarrow> \<exists>s. advance (Inference, Running) as = Some (Inference, s)"
  by (induction as rule: service_acts.induct) auto

lemma inference_acts_advance:
  assumes "inference_acts as" "phase_index p < phase_index Inference"
  shows "\<exists>s. advance (p, Completed) as = Some (Inference, s)"
proof -
  from assms(1) obtain m rest where "as = Upd Inference Running m # rest" "service_acts rest"
    by (cases as rule: inference_acts.cases) auto
  with assms(2) service_acts_advance [of rest] show ?thesis by simp
qed

lemma run_pipeline_in_order:
  "\<exists>st. advance (Upload, Completed) (acts (new_events w (snd (run_pipeline e f w)))) = Some st"
proof -
  from run_pipeline_body_shape [of w e f] obtain a1 a2 a3 a4 c1 c2 c3 f' where
    as: "acts (new_events w (snd (run_pipeline_body e f w))) = a1 @ a2 @ a3 @ a4"
    and p1: "if endswith f ''.xlsx''
         then phase_acts Conversion (converter_cmd (get_host_data_path e)) 300 a1 c1
              \<and> f' = ''OnlineRetail.csv''
         else a1 = [] \<and> c1 \<and> Next f' = fst (rename_csv e f w)"
    and p2: "if c1 then phase_acts Cleaning (cleaning_cmd (get_host_data_path e) f') 300 a2 c2
         else a2 = [] \<and> \<not> c2"
    and p3: "if c2 then phase_acts Training (training_cmd (get_host_data_path e)) 600 a3 c3
         else a3 = [] \<and> \<not> c3"
    and p4: "if c3 then inference_acts a4 else a4 = []"
    by blast
  have s1: "\<exists>p s. advance (Upload, Completed) a1 = Some (p, s)
      \<and> phase_index p < phase_index Cleaning \<and> (c1 \<longrightarrow> s = Completed)"
  proof (cases "endswith f ''.xlsx''")
    case True
    with p1 have "phase_acts Conversion (converter_cmd (get_host_data_path e)) 300 a1 c1"
      by simp
    then have "\<exists>s. advance (Upload, Completed) a1 = Some (Conversion, s)
        \<and> (c1 \<longrightarrow> s = Completed)"
      by (rule phase_acts_advance) simp
    then obtain s where "advance (Upload, Completed) a1 = Some (Conversion, s)"
      "c1 \<longrightarrow> s = Completed" by blast
    then show ?thesis by (intro exI [of _ Conversion] exI [of _ s]) simp
  next
    case False
    with p1 show ?thesis by auto
  qed
  then obtain q1 t1 where s1: "advance (Upload, Completed) a1 = Some (q1, t1)"
    "phase_index q1 < phase_index Cleaning" "c1 \<longrightarrow> t1 = Completed" by blast
  have s2: "\<exists>p s. advance (q1, t1) a2 = Some (p, s)
      \<and> phase_index p < phase_index Training \<and> (c2 \<longrightarrow> s = Completed)"
  proof (cases c1)
    case True
    with p2 have "phase_acts Cleaning (cleaning_cmd (get_host_data_path e) f') 300 a2 c2"
      by simp
    then have "\<exists>s. advance (q1, Completed) a2 = Some (Cleaning, s)
        \<and> (c2 \<longrightarrow> s = Completed)"
      using s1(2) by (rule phase_acts_advance)
    then obtain s where "advance (q1, Completed) a2 = Some (Cleaning, s)"
      "c2 \<longrightarrow> s = Completed" by blast
    with True s1(3) show ?thesis by (intro exI [of _ Cleaning] exI [of _ s]) simp
  next
    case False
    with p2 s1 show ?thesis by auto
  qed
  then obtain q2 t2 where s2: "advance (q1, t1) a2 = Some (q2, t2)"
    "phase_index q2 < phase_index Training" "c2 \<longrightarrow> t2 = Completed" by blast
  have s3: "\<exists>p s. advance (q2, t2) a3 = Some (p, s)
      \<and> phase_index p < phase_index Inference \<and> (c3 \<longrightarrow> s = Completed)"
  proof (cases c2)
    case True
    with p3 have "phase_acts Training (training_cmd (get_host_data_path e)) 600 a3 c3"
      by simp
    then have "\<exists>s. advance (q2, Completed) a3 = Some (Training, s)
        \<and> (c3 \<longrightarrow> s = Completed)"
      using s2(2) by (rule phase_acts_advance)
    then obtain s where "advance (q2, Completed) a3 = Some (Training, s)"
      "c3 \<longrightarrow> s = Completed" by blast
    with True s2(3) show ?thesis by (intro exI [of _ Training] exI [of _ s]) simp
  next
    case False
    with p3 s2 show ?thesis by auto
  qed
  then obtain q3 t3 where s3: "advance (q2, t2) a3 = Some (q3, t3)"
    "phase_index q3 < phase_index Inference" "c3 \<longrightarrow> t3 = Completed" by blast
  have s4: "\<exists>st. advance (q3, t3) a4 = Some st"
  proof (cases c3)
    case True
    with p4 have "inference_acts a4" by simp
    then have "\<exists>s. advance (q3, Completed) a4 = Some (Inference, s)"
      using s3(2) by (rule inference_acts_advance)
    with True s3(3) show ?thesis by auto
  next
    case False
    with p4 show ?thesis by simp
  qed
  from s1(1) s2(1) s3(1) s4 as show ?thesis
    using run_pipeline_acts [of w e f] by (simp add: advance_append)
qed

lemma advance_error_final: "advance (p, Error) as = Some st \<Longrightarrow> as = []"
proof (cases as)
  case Nil
  then show ?thesis by simp
next
  case (Cons a as')
  assume "advance (p, Error) as = Some st"
  with Cons show ?thesis by (cases a) (auto split: if_splits)
qed

lemma advance_phases:
  "advance (p, s) as = Some (p', s') \<Longrightarrow>
   phase_index p \<le> phase_index p'
   \<and> (\<forall>q t m. Upd q t m \<in> set as \<longrightarrow> phase_index q \<le> phase_index p')"
proof (induction "(p, s)" as arbitrary: p s rule: advance.induct)
  case 1
  then show ?case by simp
next
  case (2 p s c t r root as)
  then show ?case by (auto split: if_splits)
next
  case (3 p s q t m as)
  then show ?case by (fastforce split: if_splits)
qed

lemma replays_untouched:
  "replays v es v' \<Longrightarrow> \<forall>s m. Upd q s m \<notin> set (acts es) \<Longrightarrow> v' q = v q"
proof (induction v es v' rule: replays.induct)
  case (1 v v')
  then show ?case by (simp add: list_all_phases)
next
  case (2 v s es v')
  from "2.prems"(1) have step: "current_phase s = phase_name q \<or> view s q = v q"
    and rest: "replays (view s) es v'"
    by (simp_all add: list_all_phases)
  have "current_phase s \<noteq> phase_name q"
  proof
    assume "current_phase s = phase_name q"
    then have "Upd q (status (phases s q)) (message (phases s q))
        \<in> set (acts (Emit_status_update s # es))"
      by simp
    with "2.prems"(2) show False by blast
  qed
  with step have "view s q = v q" by simp
  moreover from "2.prems"(2) have "\<forall>t m. Upd q t m \<notin> set (acts es)"
    by (auto split: option.splits)
  with rest have "v' q = view s q" by (rule "2.IH")
  ultimately show ?case by simp
qed simp_all

lemma file_save_proj [simp]:
  "pipeline_status (snd (file_save c p w)) = pipeline_status w"
  "events (snd (file_save c p w)) = events w"
  by (simp_all add: file_save_def)

lemma upload_file_pending:
  assumes "upload_file e request w = (Next (resp, Some filename), w1)"
  shows "view (pipeline_status w1) = (\<lambda>ph. (Pending, []))
           (Upload := (Completed, ''File '' @ filename @ '' caricato con successo''))"
proof -
  from assms obtain name content where req: "request = Some (name, content)"
    by (cases request) (auto simp: upload_file_def)
  define w0 where "w0 = w\<lparr>pipeline_status := reset_on_upload (pipeline_status w)\<rparr>"
  have v0: "view (pipeline_status w0) = (\<lambda>ph. (Pending, []))"
    by (simp add: w0_def view_def reset_on_upload_def reset_phases_eq pending_state_def
        fun_eq_iff)
  define w3 where "w3 = snd (file_save content (os_path_join UPLOAD_FOLDER [secure_filename e name])
        (snd (os_makedirs UPLOAD_FOLDER w0)))"
  have v3: "view (pipeline_status w3) = (\<lambda>ph. (Pending, []))"
    using v0 by (simp add: w3_def)
  from assms have "filename = secure_filename e name
      \<and> w1 = update_phase e Upload Completed
           (''File '' @ secure_filename e name @ '' caricato con successo'') w3"
    unfolding upload_file_def req and_then_alt w3_def w0_def
    by (auto simp: Let_def split: if_splits outcome.splits)
  then show ?thesis using v3 by simp
qed

lemma advance_forward:
  "advance (p, s) as = Some st \<Longrightarrow> (s = Running \<longrightarrow> \<sigma> p = Running) \<Longrightarrow>
   (\<forall>q. phase_index p < phase_index q \<longrightarrow> \<sigma> q = Pending) \<Longrightarrow> forward_acts \<sigma> as"
proof (induction "(p, s)" as arbitrary: p s \<sigma> rule: advance.induct)
  case 1
  then show ?case by simp
next
  case (2 p s c t r root as)
  then show ?case by (auto split: if_splits)
next
  case (3 p s q t m as)
  show ?case
  proof (cases "t = Running \<and> s = Completed \<and> phase_index p < phase_index q")
    case True
    with "3.prems" have "advance (q, Running) as = Some st" by simp
    moreover have "\<forall>q'. phase_index q < phase_index q' \<longrightarrow> (\<sigma>(q := t)) q' = Pending"
      using True "3.prems"(3) by auto
    ultimately have "forward_acts (\<sigma>(q := t)) as"
      using True "3.hyps"(1) [of "\<sigma>(q := t)"] by simp
    with True "3.prems"(3) show ?thesis by (simp add: forward_def)
  next
    case False
    with "3.prems"(1) have c: "q = p" "s = Running" "t = Completed \<or> t = Error"
      and a: "advance (p, t) as = Some st"
      by (auto split: if_splits)
    have "\<forall>q'. phase_index p < phase_index q' \<longrightarrow> (\<sigma>(p := t)) q' = Pending"
      using "3.prems"(3) by auto
    with a c False have "forward_acts (\<sigma>(p := t)) as"
      using "3.hyps"(2) [of "\<sigma>(p := t)"] by auto
    with c "3.prems"(2) show ?thesis by (auto simp: forward_def)
  qed
qed

subsection \<open>A phase in error ends the run\<close>

text \<open>
  C1. Take a run started by a valid upload, and let a phase \<open>p\<close> be set to error in it.
  Then that update is the last act of the run: no command is run and no phase is updated
  after it. And at the end of the run every phase that comes after \<open>p\<close> in the fixed
  sequence is pending.
\<close>

theorem error_ends_run:
  "upload_file e request w = (Next (resp, Some filename), w1) \<Longrightarrow>
   acts (new_events w1 (snd (run_pipeline e filename w1))) = pre @ Upd p Error m # post \<Longrightarrow>
   post = []
   \<and> (\<forall>q. phase_index p < phase_index q \<longrightarrow>
          status (phases (pipeline_status (snd (run_pipeline e filename w1))) q) = Pending)"
proof -
  assume up: "upload_file e request w = (Next (resp, Some filename), w1)"
    and as: "acts (new_events w1 (snd (run_pipeline e filename w1))) = pre @ Upd p Error m # post"
  let ?w' = "snd (run_pipeline e filename w1)"
  from run_pipeline_in_order [of w1 e filename] as obtain st where
    "advance (Upload, Completed) (pre @ Upd p Error m # post) = Some st" by auto
  then obtain p0 s0 where pre: "advance (Upload, Completed) pre = Some (p0, s0)"
    and step: "advance (p0, s0) (Upd p Error m # post) = Some st"
    by (auto simp: advance_append split: option.splits)
  from step have p0: "p0 = p" and post: "advance (p, Error) post = Some st"
    by (auto split: if_splits)
  from post have nil: "post = []" by (rule advance_error_final)
  have pending: "status (phases (pipeline_status ?w') q) = Pending"
    if later: "phase_index p < phase_index q" for q
  proof -
    have "\<forall>t m'. Upd q t m' \<notin> set (acts (new_events w1 ?w'))"
    proof (intro allI notI)
      fix t m'
      assume "Upd q t m' \<in> set (acts (new_events w1 ?w'))"
      with as nil have "Upd q t m' \<in> set pre \<or> q = p" by auto
      with advance_phases [OF pre] p0 later show False by (fastforce simp: not_le)
    qed
    moreover have "follows w1 ?w'"
      using run_pipeline_acts [of w1 e filename] by blast
    then have "replays (view (pipeline_status w1)) (new_events w1 ?w')
        (view (pipeline_status ?w'))"
      by (simp add: follows_def)
    ultimately have "view (pipeline_status ?w') q = view (pipeline_status w1) q"
      by (rule replays_untouched [rotated])
    moreover from later have "q \<noteq> Upload" by (cases q) auto
    ultimately show ?thesis
      using upload_file_pending [OF up] by (simp add: view_def)
  qed
  from nil pending show ?thesis by simp
qed

subsection \<open>A run whose cleaning container fails\<close>

lemma failing_run:
  "upload_file failing_env sales_upload example_world =
     (Next (Response 200 (JObject [(''filename'', JString ''sales.csv''), (''success'', JBool True)]),
            Some ''sales.csv''),
      snd (upload_file failing_env sales_upload example_world))"
  "acts (new_events (snd (upload_file failing_env sales_upload example_world))
     (snd (run_pipeline failing_env ''sales.csv''
            (snd (upload_file failing_env sales_upload example_world))))) =
   [Upd Cleaning Running ''Pulizia e trasformazione dati...'',
    Cmd [''docker'', ''run'', ''--rm'', ''-v'', ''/srv/data:/data'', ''-e'',
         ''DATASET_FILE=OnlineRetail.csv'', ''ml-pipeline-cleaning'']
      (Some 300)
      (Inr \<lparr>returncode = 1, stdout = [], stderr = ''no space left on device''\<rparr>)
      (Dir [(''app'', Dir [(''data'',
         Dir [(''raw'', Dir [(''OnlineRetail.csv'', File ''InvoiceNo,Quantity'')]),
              (''processed'', Dir []), (''model'', Dir [])])])]),
    Upd Cleaning Error ''Errore pulizia: no space left on device'']"
  "map (\<lambda>q. status (phases (pipeline_status
       (snd (run_pipeline failing_env ''sales.csv''
              (snd (upload_file failing_env sales_upload example_world))))) q)) all_phases
   = [Completed, Pending, Error, Pending, Pending]"
  by (simp_all add: sales_upload_def upload_file_def run_pipeline_def run_pipeline_body_def
      phase_conversion_def rename_csv_def phase_cleaning_def remove_and_rename_def
      os_rename_def os_remove_def proper_prefix_def subprocess_run_def cleaning_cmd_def
      get_host_data_path_def new_events_def phase_of_name_def
      and_then_def catch_def os_makedirs_def file_save_def
      update_phase_def add_log_def emit_status_update_def
      example_world_def example_fs_def failing_env_def good_env_def initial_status_def
      pending_state_def reset_on_upload_def reset_phases_def all_phases_def
      os_path_join_def UPLOAD_FOLDER_def get_data_path_def os_path_exists_def is_dir_def
      endswith_def Let_def)

theorem error_ends_run_witness:
  "acts (new_events (snd (upload_file failing_env sales_upload example_world))
     (snd (run_pipeline failing_env ''sales.csv''
            (snd (upload_file failing_env sales_upload example_world))))) =
   [Upd Cleaning Running ''Pulizia e trasformazione dati...'',
    Cmd [''docker'', ''run'', ''--rm'', ''-v'', ''/srv/data:/data'', ''-e'',
         ''DATASET_FILE=OnlineRetail.csv'', ''ml-pipeline-cleaning'']
      (Some 300)
      (Inr \<lparr>returncode = 1, stdout = [], stderr = ''no space left on device''\<rparr>)
      (Dir [(''app'', Dir [(''data'',
         Dir [(''raw'', Dir [(''OnlineRetail.csv'', File ''InvoiceNo,Quantity'')]),
              (''processed'', Dir []), (''model'', Dir [])])])])]
   @ Upd Cleaning Error ''Errore pulizia: no space left on device'' # []
   \<and> status (phases (pipeline_status
         (snd (run_pipeline failing_env ''sales.csv''
                (snd (upload_file failing_env sales_upload example_world))))) Training)
       = Pending
   \<and> status (phases (pipeline_status
         (snd (run_pipeline failing_env ''sales.csv''
                (snd (upload_file failing_env sales_upload example_world))))) Inference)
       = Pending"
  using error_ends_run [OF failing_run(1),
          of "[Upd Cleaning Running ''Pulizia e trasformazione dati...'',
               Cmd [''docker'', ''run'', ''--rm'', ''-v'', ''/srv/data:/data'', ''-e'',
                    ''DATASET_FILE=OnlineRetail.csv'', ''ml-pipeline-cleaning'']
                 (Some 300)
                 (Inr \<lparr>returncode = 1, stdout = [], stderr = ''no space left on device''\<rparr>)
                 (Dir [(''app'', Dir [(''data'',
                    Dir [(''raw'', Dir [(''OnlineRetail.csv'', File ''InvoiceNo,Quantity'')]),
                         (''processed'', Dir []), (''model'', Dir [])])])])]"
             Cleaning "''Errore pulizia: no space left on device''" "[]"]
  by (simp add: failing_run(2))

subsection \<open>Every phase of a run moves forward\<close>

text \<open>
  C6, as the code has it. In a run started by a valid upload every update of a phase is
  a step forward for that phase: from pending to running, or from running to completed
  or to error. The statuses of the run are those the updates give: between two
  broadcasts no phase changes but the one the second broadcast names.
\<close>

theorem run_moves_forward:
  "upload_file e request w = (Next (resp, Some filename), w1) \<Longrightarrow>
   forward_acts (statuses (pipeline_status w1))
     (acts (new_events w1 (snd (run_pipeline e filename w1))))
   \<and> follows w1 (snd (run_pipeline e filename w1))"
proof -
  assume up: "upload_file e request w = (Next (resp, Some filename), w1)"
  from run_pipeline_in_order [of w1 e filename] obtain st where
    "advance (Upload, Completed) (acts (new_events w1 (snd (run_pipeline e filename w1)))) = Some st"
    by blast
  moreover have "\<forall>q. phase_index Upload < phase_index q \<longrightarrow>
      statuses (pipeline_status w1) q = Pending"
  proof (intro allI impI)
    fix q
    assume "phase_index Upload < phase_index q"
    then have "q \<noteq> Upload" by (cases q) auto
    with upload_file_pending [OF up] have "view (pipeline_status w1) q = (Pending, [])"
      by simp
    then show "statuses (pipeline_status w1) q = Pending"
      by (simp add: view_def statuses_def)
  qed
  ultimately have "forward_acts (statuses (pipeline_status w1))
     (acts (new_events w1 (snd (run_pipeline e filename w1))))"
    using advance_forward [of Upload Completed _ st "statuses (pipeline_status w1)"] by simp
  then show ?thesis using run_pipeline_acts [of w1 e filename] by blast
qed

theorem run_moves_forward_witness:
  "forward_acts (statuses (pipeline_status (snd (upload_file failing_env sales_upload example_world))))
     [Upd Cleaning Running ''Pulizia e trasformazione dati...'',
      Cmd [''docker'', ''run'', ''--rm'', ''-v'', ''/srv/data:/data'', ''-e'',
           ''DATASET_FILE=OnlineRetail.csv'', ''ml-pipeline-cleaning'']
        (Some 300)
        (Inr \<lparr>returncode = 1, stdout = [], stderr = ''no space left on device''\<rparr>)
        (Dir [(''app'', Dir [(''data'',
           Dir [(''raw'', Dir [(''OnlineRetail.csv'', File ''InvoiceNo,Quantity'')]),
                (''processed'', Dir []), (''model'', Dir [])])])]),
      Upd Cleaning Error ''Errore pulizia: no space left on device'']
   \<and> follows (snd (upload_file failing_env sales_upload example_world))
       (snd (run_pipeline failing_env ''sales.csv''
              (snd (upload_file failing_env sales_upload example_world))))"
  using run_moves_forward [OF failing_run(1)]
  by (simp add: failing_run(2))

text \<open>
  C6 as stated fails for the upload phase. The reset of a valid upload leaves the upload
  phase pending, and the only update of that phase sets it to completed: it is never
  running.
\<close>

theorem upload_completes_without_running:
  "statuses (reset_on_upload (pipeline_status example_world)) Upload = Pending
   \<and> acts (new_events example_world (snd (upload_file good_env sales_upload example_world)))
       = [Upd Upload Completed ''File sales.csv caricato con successo'']
   \<and> \<not> forward_acts (statuses (reset_on_upload (pipeline_status example_world)))
         (acts (new_events example_world
            (snd (upload_file good_env sales_upload example_world))))"
  by (simp add: sales_upload_def upload_file_def and_then_def os_makedirs_def file_save_def
      update_phase_def add_log_def emit_status_update_def new_events_def phase_of_name_def
      example_world_def example_fs_def good_env_def initial_status_def
      pending_state_def reset_on_upload_def reset_phases_def all_phases_def statuses_def
      forward_def os_path_join_def UPLOAD_FOLDER_def is_dir_def endswith_def Let_def)

subsection \<open>The verdict on a stage\<close>

lemma runs_stage_stage_of: "runs_stage ph c \<Longrightarrow> stage_of c = Some ph"
  by (cases ph) (auto simp: stage_of_def runs_stage_def)

lemma judged_other_cmd:
  "stage_of c = None \<Longrightarrow> judged bs \<Longrightarrow> judged (Cmd c t r root # bs)"
  by (cases bs rule: judged.cases) auto

lemma judged_append: "judged as \<Longrightarrow> judged bs \<Longrightarrow> judged (as @ bs)"
  by (induction as rule: judged.induct) (auto simp: judged_other_cmd split: option.splits)

lemma judged_from:
  "judged (pre @ Cmd c t r root # post) \<Longrightarrow> judged (Cmd c t r root # post)"
  by (induction pre rule: judged.induct) (auto split: option.splits)

lemma phase_acts_judged:
  assumes "phase_acts ph cmd t as c" "runs_stage ph cmd"
  shows "judged as"
proof -
  from assms(1) obtain m rest where as: "as = Upd ph Running m # rest"
    and rest: "(rest = [] \<and> \<not> c) \<or> (failed_at ph rest \<and> \<not> c) \<or> verdict_acts ph cmd t rest c"
    by (cases "(ph, cmd, t, as, c)" rule: phase_acts.cases) auto
  from rest show ?thesis
  proof (elim disjE)
    assume "rest = [] \<and> \<not> c"
    with as show ?thesis by simp
  next
    assume "failed_at ph rest \<and> \<not> c"
    then obtain m' where "rest = [Upd ph Error m']"
      by (cases "(ph, rest)" rule: failed_at.cases) auto
    with as show ?thesis by simp
  next
    assume "verdict_acts ph cmd t rest c"
    then obtain r root s m' where "rest = [Cmd cmd (Some t) r root, Upd ph s m']"
      "(s, m') = stage_verdict ph r root"
      by (cases "(ph, cmd, t, rest, c)" rule: verdict_acts.cases) auto
    with as runs_stage_stage_of [OF assms(2)] show ?thesis by simp
  qed
qed

lemma service_acts_judged: "service_acts as \<Longrightarrow> judged as"
proof (induction as rule: service_acts.induct)
  case (3 c t r root as)
  then have "stage_of c = None" by (simp add: stage_of_def)
  with 3 show ?case by (simp add: judged_other_cmd)
qed simp_all

lemma inference_acts_judged: "inference_acts as \<Longrightarrow> judged as"
  by (cases as rule: inference_acts.cases) (auto simp: service_acts_judged)

lemma stage_cmds:
  "runs_stage Conversion (converter_cmd h)" "runs_stage Cleaning (cleaning_cmd h f)"
  "runs_stage Training (training_cmd h)"
  by (simp_all add: runs_stage_def converter_cmd_def cleaning_cmd_def training_cmd_def)

lemma run_pipeline_judged: "judged (acts (new_events w (snd (run_pipeline e f w))))"
proof -
  from run_pipeline_body_shape [of w e f] obtain a1 a2 a3 a4 c1 c2 c3 f' where
    as: "acts (new_events w (snd (run_pipeline_body e f w))) = a1 @ a2 @ a3 @ a4"
    and p1: "if endswith f ''.xlsx''
         then phase_acts Conversion (converter_cmd (get_host_data_path e)) 300 a1 c1
              \<and> f' = ''OnlineRetail.csv''
         else a1 = [] \<and> c1 \<and> Next f' = fst (rename_csv e f w)"
    and p2: "if c1 then phase_acts Cleaning (cleaning_cmd (get_host_data_path e) f') 300 a2 c2
         else a2 = [] \<and> \<not> c2"
    and p3: "if c2 then phase_acts Training (training_cmd (get_host_data_path e)) 600 a3 c3
         else a3 = [] \<and> \<not> c3"
    and p4: "if c3 then inference_acts a4 else a4 = []"
    by blast
  have "judged a1" using p1 phase_acts_judged [OF _ stage_cmds(1)] by (auto split: if_splits)
  moreover have "judged a2"
    using p2 phase_acts_judged [OF _ stage_cmds(2)] by (auto split: if_splits)
  moreover have "judged a3"
    using p3 phase_acts_judged [OF _ stage_cmds(3)] by (auto split: if_splits)
  moreover have "judged a4" using p4 inference_acts_judged by (auto split: if_splits)
  ultimately have "judged (a1 @ a2 @ a3 @ a4)" by (intro judged_append)
  with as show ?thesis using run_pipeline_acts [of w e f] by simp
qed

lemma replays_last:
  "replays v es v' \<Longrightarrow> acts es = as @ [Upd p s m] \<Longrightarrow> v' p = (s, m)"
proof (induction v es v' arbitrary: as rule: replays.induct)
  case (1 v v')
  then show ?case by simp
next
  case (2 v s0 es v')
  from "2.prems"(1) have rest: "replays (view s0) es v'" by simp
  show ?case
  proof (cases "acts es = []")
    case True
    with "2.prems"(2) have "phase_of_name (current_phase s0) = Some p"
      "(status (phases s0 p), message (phases s0 p)) = (s, m)"
      by (auto split: option.splits)
    then have "view s0 p = (s, m)" by (simp add: view_def)
    moreover have "v' p = view s0 p"
      using replays_untouched [OF rest, of p] True by simp
    ultimately show ?thesis by simp
  next
    case False
    with "2.prems"(2) obtain as' where "acts es = as' @ [Upd p s m]"
      by (cases as; cases "phase_of_name (current_phase s0)") auto
    with rest show ?thesis by (rule "2.IH")
  qed
qed (auto simp: Cons_eq_append_conv)

lemma error_update_last:
  assumes up: "upload_file e request w = (Next (resp, Some filename), w1)"
    and as: "acts (new_events w1 (snd (run_pipeline e filename w1))) = pre @ Upd p Error m # post"
  shows "post = []"
    and "phase_index p < phase_index q \<Longrightarrow>
         status (phases (pipeline_status (snd (run_pipeline e filename w1))) q) = Pending"
    and "view (pipeline_status (snd (run_pipeline e filename w1))) p = (Error, m)"
proof -
  let ?w' = "snd (run_pipeline e filename w1)"
  from run_pipeline_in_order [of w1 e filename] as obtain st where
    "advance (Upload, Completed) (pre @ Upd p Error m # post) = Some st" by auto
  then obtain p0 s0 where pre: "advance (Upload, Completed) pre = Some (p0, s0)"
    and step: "advance (p0, s0) (Upd p Error m # post) = Some st"
    by (auto simp: advance_append split: option.splits)
  from step have p0: "p0 = p" and post: "advance (p, Error) post = Some st"
    by (auto split: if_splits)
  from post show nil: "post = []" by (rule advance_error_final)
  have fol: "replays (view (pipeline_status w1)) (new_events w1 ?w') (view (pipeline_status ?w'))"
  proof -
    have "follows w1 ?w'" using run_pipeline_acts [of w1 e filename] by blast
    then show ?thesis by (simp add: follows_def)
  qed
  from fol as nil show "view (pipeline_status ?w') p = (Error, m)"
    by (intro replays_last [of _ _ _ pre]) simp_all
  show "status (phases (pipeline_status ?w') q) = Pending"
    if later: "phase_index p < phase_index q"
  proof -
    have "\<forall>t m'. Upd q t m' \<notin> set (acts (new_events w1 ?w'))"
    proof (intro allI notI)
      fix t m'
      assume "Upd q t m' \<in> set (acts (new_events w1 ?w'))"
      with as nil have "Upd q t m' \<in> set pre \<or> q = p" by auto
      with advance_phases [OF pre] p0 later show False by (fastforce simp: not_le)
    qed
    with fol have "view (pipeline_status ?w') q = view (pipeline_status w1) q"
      by (rule replays_untouched)
    moreover from later have "q \<noteq> Upload" by (cases q) auto
    ultimately show ?thesis
      using upload_file_pending [OF up] by (simp add: view_def)
  qed
qed

lemma idle_run:
  "upload_file idle_env sales_upload example_world =
     (Next (Response 200 (JObject [(''filename'', JString ''sales.csv''), (''success'', JBool True)]),
            Some ''sales.csv''),
      snd (upload_file idle_env sales_upload example_world))"
  "acts (new_events (snd (upload_file idle_env sales_upload example_world))
     (snd (run_pipeline idle_env ''sales.csv''
            (snd (upload_file idle_env sales_upload example_world))))) =
   [Upd Cleaning Running ''Pulizia e trasformazione dati...'',
    Cmd [''docker'', ''run'', ''--rm'', ''-v'', ''/srv/data:/data'', ''-e'',
         ''DATASET_FILE=OnlineRetail.csv'', ''ml-pipeline-cleaning'']
      (Some 300)
      (Inr \<lparr>returncode = 0, stdout = ''done'', stderr = []\<rparr>)
      (Dir [(''app'', Dir [(''data'',
         Dir [(''raw'', Dir [(''OnlineRetail.csv'', File ''InvoiceNo,Quantity'')]),
              (''processed'', Dir []), (''model'', Dir [])])])]),
    Upd Cleaning Error ''File pulito non creato'']"
  by (simp_all add: sales_upload_def upload_file_def run_pipeline_def run_pipeline_body_def
      phase_conversion_def rename_csv_def phase_cleaning_def remove_and_rename_def
      os_rename_def os_remove_def proper_prefix_def subprocess_run_def cleaning_cmd_def
      get_host_data_path_def new_events_def phase_of_name_def
      and_then_def catch_def os_makedirs_def file_save_def
      update_phase_def add_log_def emit_status_update_def
      example_world_def example_fs_def idle_env_def good_env_def initial_status_def
      pending_state_def reset_on_upload_def reset_phases_def all_phases_def
      os_path_join_def UPLOAD_FOLDER_def get_data_path_def os_path_exists_def is_dir_def
      endswith_def Let_def)

text \<open>
  C3. Take a run started by a valid upload in which a command that runs a stage (the
  converter, the cleaning or the training image) has ended with return code 0, and
  the artifact of that stage is not in the file tree the command has left. Then the one
  act that follows is the update of that stage to error with the message of the missing
  output (for the cleaning stage \<open>File pulito non creato\<close>); \<open>run_pipeline\<close> returns; at the
  end the stage is in error with that message and every later phase is pending.
\<close>

theorem missing_artifact_fails_stage:
  "upload_file e request w = (Next (resp, Some filename), w1) \<Longrightarrow>
   acts (new_events w1 (snd (run_pipeline e filename w1)))
     = pre @ Cmd c t (Inr result) root # post \<Longrightarrow>
   runs_stage ph c \<Longrightarrow> returncode result = 0 \<Longrightarrow>
   \<not> os_path_exists root (expected_artifact ph) \<Longrightarrow>
   post = [Upd ph Error (missing_output_message ph)]
   \<and> fst (run_pipeline e filename w1) = Next ()
   \<and> view (pipeline_status (snd (run_pipeline e filename w1))) ph
       = (Error, missing_output_message ph)
   \<and> (\<forall>q. phase_index ph < phase_index q \<longrightarrow>
          status (phases (pipeline_status (snd (run_pipeline e filename w1))) q) = Pending)"
proof -
  assume up: "upload_file e request w = (Next (resp, Some filename), w1)"
    and as: "acts (new_events w1 (snd (run_pipeline e filename w1)))
       = pre @ Cmd c t (Inr result) root # post"
    and stage: "runs_stage ph c" and rc: "returncode result = 0"
    and gone: "\<not> os_path_exists root (expected_artifact ph)"
  from run_pipeline_judged [of w1 e filename] as
  have "judged (Cmd c t (Inr result) root # post)" by (simp add: judged_from)
  with runs_stage_stage_of [OF stage] obtain s m rest where
    post: "post = Upd ph s m # rest" and v: "(s, m) = stage_verdict ph (Inr result) root"
    by (cases post rule: judged.cases) auto
  from v rc gone have sm: "s = Error" "m = missing_output_message ph" by simp_all
  from as post sm have as':
    "acts (new_events w1 (snd (run_pipeline e filename w1)))
       = (pre @ [Cmd c t (Inr result) root]) @ Upd ph Error (missing_output_message ph) # rest"
    by simp
  from error_update_last(1) [OF up as'] have "rest = []" .
  with post sm have "post = [Upd ph Error (missing_output_message ph)]" by simp
  moreover have "fst (run_pipeline e filename w1) = Next ()"
    using run_pipeline_acts [of w1 e filename] by blast
  moreover note error_update_last(3) [OF up as'] error_update_last(2) [OF up as']
  ultimately show ?thesis by blast
qed

theorem missing_artifact_fails_stage_witness:
  "acts (new_events (snd (upload_file idle_env sales_upload example_world))
     (snd (run_pipeline idle_env ''sales.csv''
            (snd (upload_file idle_env sales_upload example_world))))) =
   [Upd Cleaning Running ''Pulizia e trasformazione dati...'']
   @ Cmd [''docker'', ''run'', ''--rm'', ''-v'', ''/srv/data:/data'', ''-e'',
          ''DATASET_FILE=OnlineRetail.csv'', ''ml-pipeline-cleaning'']
       (Some 300)
       (Inr \<lparr>returncode = 0, stdout = ''done'', stderr = []\<rparr>)
       (Dir [(''app'', Dir [(''data'',
          Dir [(''raw'', Dir [(''OnlineRetail.csv'', File ''InvoiceNo,Quantity'')]),
               (''processed'', Dir []), (''model'', Dir [])])])])
   # [Upd Cleaning Error ''File pulito non creato'']
   \<and> fst (run_pipeline idle_env ''sales.csv''
          (snd (upload_file idle_env sales_upload example_world))) = Next ()
   \<and> view (pipeline_status (snd (run_pipeline idle_env ''sales.csv''
          (snd (upload_file idle_env sales_upload example_world))))) Cleaning
       = (Error, ''File pulito non creato'')
   \<and> status (phases (pipeline_status (snd (run_pipeline idle_env ''sales.csv''
          (snd (upload_file idle_env sales_upload example_world))))) Training) = Pending"
  using missing_artifact_fails_stage [OF idle_run(1),
          of "[Upd Cleaning Running ''Pulizia e trasformazione dati...'']"
             "[''docker'', ''run'', ''--rm'', ''-v'', ''/srv/data:/data'', ''-e'',
               ''DATASET_FILE=OnlineRetail.csv'', ''ml-pipeline-cleaning'']"
             "Some 300" "\<lparr>returncode = 0, stdout = ''done'', stderr = []\<rparr>"
             "Dir [(''app'', Dir [(''data'',
                Dir [(''raw'', Dir [(''OnlineRetail.csv'', File ''InvoiceNo,Quantity'')]),
                     (''processed'', Dir []), (''model'', Dir [])])])]"
             "[Upd Cleaning Error ''File pulito non creato'']" Cleaning]
  by (simp add: idle_run(2) runs_stage_def os_path_exists_def os_path_join_def
      get_data_path_def)

subsection \<open>The cleaning phase after the conversion\<close>

lemma phase_cleaning_invokes:
  "os_path_exists (fs w) (os_path_join get_data_path [''raw'', f]) \<Longrightarrow>
   makedirs [] (fs w) (os_path_join get_data_path [''processed'']) = Inr root' \<Longrightarrow>
   acts (new_events w (snd (phase_cleaning e f w))) =
     [Upd Cleaning Running ''Pulizia e trasformazione dati...'',
      Cmd (cleaning_cmd (get_host_data_path e) f) (Some 300)
        (fst (subprocess e (cleaning_cmd (get_host_data_path e) f) (Some 300)
           (add_log e (''Esecuzione comando: '' @ join '' '' (cleaning_cmd (get_host_data_path e) f))
              Info ((update_phase e Cleaning Running ''Pulizia e trasformazione dati...'' w)
                      \<lparr>fs := root'\<rparr>))))
        (snd (subprocess e (cleaning_cmd (get_host_data_path e) f) (Some 300)
           (add_log e (''Esecuzione comando: '' @ join '' '' (cleaning_cmd (get_host_data_path e) f))
              Info ((update_phase e Cleaning Running ''Pulizia e trasformazione dati...'' w)
                      \<lparr>fs := root'\<rparr>)))),
      last (acts (new_events w (snd (phase_cleaning e f w))))]"
  unfolding phase_cleaning_def flow
  by (simp add: shape_defs os_makedirs_def split: sum.split outcome.split)

lemma run_pipeline_wrapper:
  "follows (snd (run_pipeline_body e f w)) (snd (run_pipeline e f w))"
proof (cases "fst (run_pipeline_body e f w)")
  case (Raise x)
  then have "run_pipeline e f w = (Next (), add_log e (''Errore nella pipeline: '' @ str x)
      ErrorLevel (snd (run_pipeline_body e f w)))"
    by (cases "run_pipeline_body e f w") (simp add: run_pipeline_def catch_def)
  then show ?thesis
    by (simp add: follows_def extends_def new_events_def list_all_phases)
next
  case (Next u)
  then have "run_pipeline e f w = (Next (), snd (run_pipeline_body e f w))"
    by (cases "run_pipeline_body e f w") (simp add: run_pipeline_def catch_def)
  then show ?thesis by (simp add: follows_refl)
next
  case Return
  then have "run_pipeline e f w = (Next (), snd (run_pipeline_body e f w))"
    by (cases "run_pipeline_body e f w") (simp add: run_pipeline_def catch_def)
  then show ?thesis by (simp add: follows_refl)
qed

lemma run_pipeline_prefix:
  assumes conv: "fst (phase_conversion e f w) = Next f'"
  defines "w1 \<equiv> snd (phase_conversion e f w)"
  shows "\<exists>rest. acts (new_events w (snd (run_pipeline e f w))) =
           acts (new_events w w1) @ acts (new_events w1 (snd (phase_cleaning e f' w1))) @ rest"
    and "follows w1 (snd (run_pipeline e f w))"
proof -
  define k3 where "k3 = (\<lambda>(u::unit) w3. phase_inference e w3)"
  define k2 where "k2 = (\<lambda>(u::unit) w2. and_then (phase_training e w2) k3)"
  define k1 where "k1 = (\<lambda>name w1. and_then (phase_cleaning e name w1) k2)"
  have body: "run_pipeline_body e f w = and_then (phase_conversion e f w) k1"
    by (simp add: run_pipeline_body_def k1_def k2_def k3_def)
  have f3: "follows w3 (snd (k3 u w3))" for u w3
    using phase_inference_acts [of w3 e] by (simp add: k3_def)
  have f2: "follows w2 (snd (k2 u w2))" for u w2
    unfolding k2_def using phase_training_acts [of w2 e]
    by (intro and_then_acts(1) f3) simp
  have fc: "follows w0 (snd (phase_cleaning e name w0))" for name w0
    using phase_cleaning_acts [of w0 e name] by simp
  have f1: "follows w0 (snd (k1 name w0))" for name w0
    unfolding k1_def by (intro and_then_acts(1) f2 fc)
  have a1: "acts (new_events w0 (snd (k1 name w0))) =
      acts (new_events w0 (snd (phase_cleaning e name w0))) @
      (case fst (phase_cleaning e name w0) of
         Next a \<Rightarrow> acts (new_events (snd (phase_cleaning e name w0))
                     (snd (k2 a (snd (phase_cleaning e name w0)))))
       | Return \<Rightarrow> [] | Raise x \<Rightarrow> [])" for name w0
    unfolding k1_def by (intro and_then_acts(2) f2 fc)
  have fconv: "follows w w1" using phase_conversion_acts [of w e f] by (simp add: w1_def)
  from conv have sb: "snd (run_pipeline_body e f w) = snd (k1 f' w1)"
    by (simp add: body and_then_alt w1_def)
  have fb: "follows w1 (snd (run_pipeline_body e f w))" by (simp add: sb f1)
  from fb run_pipeline_wrapper [of e f w] show "follows w1 (snd (run_pipeline e f w))"
    by (rule follows_trans(1))
  from fconv fb have "acts (new_events w (snd (run_pipeline_body e f w))) =
      acts (new_events w w1) @ acts (new_events w1 (snd (run_pipeline_body e f w)))"
    by (rule follows_acts)
  then show "\<exists>rest. acts (new_events w (snd (run_pipeline e f w))) =
           acts (new_events w w1) @ acts (new_events w1 (snd (phase_cleaning e f' w1))) @ rest"
    using run_pipeline_acts [of w e f] by (simp add: sb a1)
qed

lemma phase_cleaning_starts:
  "\<exists>m rest. acts (new_events w (snd (phase_cleaning e f w))) = Upd Cleaning Running m # rest"
  using phase_cleaning_acts [of w e f]
  by (cases "acts (new_events w (snd (phase_cleaning e f w)))" rule: phase_acts.cases
        [of "(Cleaning, cleaning_cmd (get_host_data_path e) f, 300, _, fst (phase_cleaning e f w) = Next ())"])
     auto

subsection \<open>A CSV upload that cannot take the canonical name\<close>

text \<open>
  C9, as the code has it. Take a file name that does not end in \<open>.xlsx\<close> and is not the
  canonical name, and let the removal of a stale file or the renaming raise. Then
  \<open>run_pipeline\<close> logs \<open>Errore nel rinominare CSV\<close> with the text of the exception at level
  error, goes on with the name as it is, and sets the cleaning phase to running; it
  returns without an exception. If after the failed attempt the file of that name is in
  \<open>raw\<close> and \<open>os.makedirs\<close> of \<open>processed\<close> does not raise, the next act is the cleaning
  container, run with \<open>DATASET_FILE\<close> set to that name.
\<close>

theorem csv_rename_failure_continues:
  "\<not> endswith f ''.xlsx'' \<Longrightarrow> f \<noteq> ''OnlineRetail.csv'' \<Longrightarrow>
   fst (remove_and_rename (os_path_join get_data_path [''raw'', f])
          (os_path_join get_data_path [''raw'', ''OnlineRetail.csv'']) w) = Raise x \<Longrightarrow>
   fst (run_pipeline e f w) = Next ()
   \<and> (\<exists>l. Emit_new_log l \<in> set (new_events w (snd (run_pipeline e f w)))
          \<and> log_level l = ErrorLevel
          \<and> log_message l = ''Errore nel rinominare CSV: '' @ str x)
   \<and> (\<exists>m rest. acts (new_events w (snd (run_pipeline e f w)))
          = Upd Cleaning Running m # rest)
   \<and> (os_path_exists
         (fs (snd (remove_and_rename (os_path_join get_data_path [''raw'', f])
                (os_path_join get_data_path [''raw'', ''OnlineRetail.csv'']) w)))
         (os_path_join get_data_path [''raw'', f])
       \<and> makedirs []
            (fs (snd (remove_and_rename (os_path_join get_data_path [''raw'', f])
                   (os_path_join get_data_path [''raw'', ''OnlineRetail.csv'']) w)))
            (os_path_join get_data_path [''processed'']) = Inr root'
      \<longrightarrow> (\<exists>m r root rest. acts (new_events w (snd (run_pipeline e f w)))
             = Upd Cleaning Running m
               # Cmd (cleaning_cmd (get_host_data_path e) f) (Some 300) r root # rest)
          \<and> ''DATASET_FILE='' @ f \<in> set (cleaning_cmd (get_host_data_path e) f))"
proof -
  let ?old = "os_path_join get_data_path [''raw'', f]"
  let ?new = "os_path_join get_data_path [''raw'', ''OnlineRetail.csv'']"
  assume csv: "\<not> endswith f ''.xlsx''" and name: "f \<noteq> ''OnlineRetail.csv''"
    and raised: "fst (remove_and_rename ?old ?new w) = Raise x"
  define w0 where "w0 = snd (remove_and_rename ?old ?new w)"
  define w1 where "w1 = add_log e (''Errore nel rinominare CSV: '' @ str x) ErrorLevel w0"
  from csv name raised have conv: "phase_conversion e f w = (Next f, w1)"
    by (simp add: phase_conversion_def rename_csv_def catch_alt and_then_alt w1_def w0_def)
  then have c1: "fst (phase_conversion e f w) = Next f" and c2: "snd (phase_conversion e f w) = w1"
    by simp_all
  from run_pipeline_prefix [OF c1] obtain rest where
    as: "acts (new_events w (snd (run_pipeline e f w))) =
           acts (new_events w w1) @ acts (new_events w1 (snd (phase_cleaning e f w1))) @ rest"
    and fol: "follows w1 (snd (run_pipeline e f w))"
    by (auto simp: c2)
  have ev1: "events w1 = events w @ [Emit_new_log (last (logs (pipeline_status w1)))]"
    by (simp add: w1_def w0_def)
  have a1: "acts (new_events w w1) = []"
    by (simp add: new_events_def ev1)
  have ret: "fst (run_pipeline e f w) = Next ()"
    using run_pipeline_acts [of w e f] by blast
  have logged: "\<exists>l. Emit_new_log l \<in> set (new_events w (snd (run_pipeline e f w)))
          \<and> log_level l = ErrorLevel
          \<and> log_message l = ''Errore nel rinominare CSV: '' @ str x"
  proof -
    from fol obtain evs where "events (snd (run_pipeline e f w)) = events w1 @ evs"
      by (auto simp: follows_def extends_iff)
    with ev1 have "new_events w (snd (run_pipeline e f w))
        = Emit_new_log (last (logs (pipeline_status w1))) # evs"
      by (simp add: new_events_def)
    moreover have "log_level (last (logs (pipeline_status w1))) = ErrorLevel"
      "log_message (last (logs (pipeline_status w1))) = ''Errore nel rinominare CSV: '' @ str x"
      by (simp_all add: w1_def add_log_def Let_def)
    ultimately show ?thesis by auto
  qed
  have started: "\<exists>m rest. acts (new_events w (snd (run_pipeline e f w)))
          = Upd Cleaning Running m # rest"
    using as a1 phase_cleaning_starts [of w1 e f] by auto
  have invoked: "\<exists>m r root rest. acts (new_events w (snd (run_pipeline e f w)))
             = Upd Cleaning Running m
               # Cmd (cleaning_cmd (get_host_data_path e) f) (Some 300) r root # rest"
    if "os_path_exists (fs w0) ?old" "makedirs [] (fs w0) (os_path_join get_data_path [''processed''])
        = Inr root'"
  proof -
    from that have ex: "os_path_exists (fs w1) ?old"
      and mk: "makedirs [] (fs w1) (os_path_join get_data_path [''processed'']) = Inr root'"
      by (simp_all add: w1_def)
    have "\<exists>r root u. acts (new_events w1 (snd (phase_cleaning e f w1))) =
        [Upd Cleaning Running ''Pulizia e trasformazione dati...'',
         Cmd (cleaning_cmd (get_host_data_path e) f) (Some 300) r root, u]"
      by (intro exI) (rule phase_cleaning_invokes [OF ex mk])
    then obtain r root u where "acts (new_events w1 (snd (phase_cleaning e f w1))) =
        [Upd Cleaning Running ''Pulizia e trasformazione dati...'',
         Cmd (cleaning_cmd (get_host_data_path e) f) (Some 300) r root, u]"
      by blast
    with as a1 have "acts (new_events w (snd (run_pipeline e f w)))
             = Upd Cleaning Running ''Pulizia e trasformazione dati...''
               # Cmd (cleaning_cmd (get_host_data_path e) f) (Some 300) r root # (u # rest)"
      by simp
    then show ?thesis by blast
  qed
  have "''DATASET_FILE='' @ f \<in> set (cleaning_cmd (get_host_data_path e) f)"
    by (simp add: cleaning_cmd_def)
  with ret logged started invoked show ?thesis unfolding w0_def by blast
qed

lemma taken_run:
  "fst (remove_and_rename (os_path_join get_data_path [''raw'', ''sales.csv''])
         (os_path_join get_data_path [''raw'', ''OnlineRetail.csv''])
         (snd (upload_file failing_env sales_upload taken_world)))
   = Raise (Exn OSError (''[Errno 21] Is a directory: '' @ [CHR 0x27]
                          @ ''/app/data/raw/OnlineRetail.csv'' @ [CHR 0x27]))"
  "acts (new_events (snd (upload_file failing_env sales_upload taken_world))
     (snd (run_pipeline failing_env ''sales.csv''
            (snd (upload_file failing_env sales_upload taken_world))))) =
   [Upd Cleaning Running ''Pulizia e trasformazione dati...'',
    Cmd [''docker'', ''run'', ''--rm'', ''-v'', ''/srv/data:/data'', ''-e'',
         ''DATASET_FILE=sales.csv'', ''ml-pipeline-cleaning'']
      (Some 300)
      (Inr \<lparr>returncode = 1, stdout = [], stderr = ''no space left on device''\<rparr>)
      (Dir [(''app'', Dir [(''data'',
         Dir [(''raw'', Dir [(''OnlineRetail.csv'', Dir []),
                            (''sales.csv'', File ''InvoiceNo,Quantity'')]),
              (''processed'', Dir []), (''model'', Dir [])])])]),
    Upd Cleaning Error ''Errore pulizia: no space left on device'']"
  by (simp_all add: sales_upload_def upload_file_def run_pipeline_def run_pipeline_body_def
      phase_conversion_def rename_csv_def phase_cleaning_def remove_and_rename_def
      os_rename_def os_remove_def proper_prefix_def subprocess_run_def cleaning_cmd_def
      get_host_data_path_def new_events_def phase_of_name_def
      and_then_def catch_def os_makedirs_def file_save_def os_error_def repr_path_def
      update_phase_def add_log_def emit_status_update_def
      taken_world_def taken_fs_def failing_env_def good_env_def initial_status_def
      pending_state_def reset_on_upload_def reset_phases_def all_phases_def
      os_path_join_def UPLOAD_FOLDER_def get_data_path_def os_path_exists_def is_dir_def
      endswith_def Let_def)

theorem csv_rename_failure_continues_witness:
  "fst (remove_and_rename (os_path_join get_data_path [''raw'', ''sales.csv''])
         (os_path_join get_data_path [''raw'', ''OnlineRetail.csv''])
         (snd (upload_file failing_env sales_upload taken_world)))
   = Raise (Exn OSError (''[Errno 21] Is a directory: '' @ [CHR 0x27]
                          @ ''/app/data/raw/OnlineRetail.csv'' @ [CHR 0x27]))
   \<and> fst (run_pipeline failing_env ''sales.csv''
          (snd (upload_file failing_env sales_upload taken_world))) = Next ()
   \<and> acts (new_events (snd (upload_file failing_env sales_upload taken_world))
       (snd (run_pipeline failing_env ''sales.csv''
              (snd (upload_file failing_env sales_upload taken_world))))) =
     [Upd Cleaning Running ''Pulizia e trasformazione dati...'',
      Cmd [''docker'', ''run'', ''--rm'', ''-v'', ''/srv/data:/data'', ''-e'',
           ''DATASET_FILE=sales.csv'', ''ml-pipeline-cleaning'']
        (Some 300)
        (Inr \<lparr>returncode = 1, stdout = [], stderr = ''no space left on device''\<rparr>)
        (Dir [(''app'', Dir [(''data'',
           Dir [(''raw'', Dir [(''OnlineRetail.csv'', Dir []),
                              (''sales.csv'', File ''InvoiceNo,Quantity'')]),
                (''processed'', Dir []), (''model'', Dir [])])])]),
      Upd Cleaning Error ''Errore pulizia: no space left on device'']"
  using csv_rename_failure_continues [OF _ _ taken_run(1), of failing_env]
  by (simp add: taken_run endswith_def)

text \<open>
  C9 as stated fails when \<open>os.makedirs\<close> raises. Here \<open>sales.csv\<close> is uploaded while the
  canonical name is taken by a directory and \<open>processed\<close> is a regular file: the rename
  raises, the file \<open>sales.csv\<close> is still in \<open>raw\<close>, and the cleaning container is not
  run.
\<close>

theorem csv_kept_but_cleaning_not_run:
  "fst (remove_and_rename (os_path_join get_data_path [''raw'', ''sales.csv''])
         (os_path_join get_data_path [''raw'', ''OnlineRetail.csv''])
         (snd (upload_file good_env sales_upload stuck_world)))
   = Raise (Exn OSError (''[Errno 21] Is a directory: '' @ [CHR 0x27]
                          @ ''/app/data/raw/OnlineRetail.csv'' @ [CHR 0x27]))
   \<and> os_path_exists
        (fs (snd (run_pipeline good_env ''sales.csv''
               (snd (upload_file good_env sales_upload stuck_world)))))
        (os_path_join get_data_path [''raw'', ''sales.csv''])
   \<and> acts (new_events (snd (upload_file good_env sales_upload stuck_world))
       (snd (run_pipeline good_env ''sales.csv''
              (snd (upload_file good_env sales_upload stuck_world)))))
      = [Upd Cleaning Running ''Pulizia e trasformazione dati...'']"
  by (simp add: sales_upload_def upload_file_def run_pipeline_def run_pipeline_body_def
      phase_conversion_def rename_csv_def phase_cleaning_def remove_and_rename_def
      os_rename_def os_remove_def proper_prefix_def
      get_host_data_path_def new_events_def phase_of_name_def
      and_then_def catch_def os_makedirs_def file_save_def os_error_def repr_path_def
      update_phase_def add_log_def emit_status_update_def
      stuck_world_def stuck_fs_def good_env_def initial_status_def
      pending_state_def reset_on_upload_def reset_phases_def all_phases_def
      os_path_join_def UPLOAD_FOLDER_def get_data_path_def os_path_exists_def is_dir_def
      endswith_def Let_def)

end
